theory Spec2Isabelle
  imports Complex_Main "HOL-Library.Char_ord" "HOL-Library.List_Lexorder"
begin

section \<open>Data model of \<^verbatim>\<open>scripts/cve_security_check.py\<close>\<close>

text \<open>
  The script keeps every record as a Python dictionary with a fixed set of keys.
  Each dictionary becomes a record here; a key that is read only through
  \<^verbatim>\<open>d.get(k)\<close> becomes an \<open>option\<close> field (\<open>None\<close> stands for a missing key and
  for a key bound to \<^verbatim>\<open>None\<close>, which \<^verbatim>\<open>get\<close> cannot tell apart), and a list read
  only through \<^verbatim>\<open>d.get(k) or []\<close> becomes a list field.  Where the program does
  tell a missing key from a key bound to \<^verbatim>\<open>None\<close> (a \<^verbatim>\<open>get\<close> with a default, or
  an assignment that creates the key) the field is a \<open>slot\<close>.
  Strings are byte strings; the case conversions and the character classes below are
  those of Python on ASCII text.  The id and the aliases of an advisory, to which the
  enrichment pass applies a pattern with \<^verbatim>\<open>\d\<close>, are kept apart: they are JSON
  scalars whose strings are lists of code points (see below).
\<close>

datatype 'a slot = Missing | Null | Present 'a

text \<open>\<^verbatim>\<open>d.get(k)\<close>\<close>

fun get :: "'a slot \<Rightarrow> 'a option" where
  "get Missing = None"
| "get Null = None"
| "get (Present x) = Some x"

text \<open>\<^verbatim>\<open>d[k] = x\<close>, where \<open>x\<close> may be \<^verbatim>\<open>None\<close>.\<close>

fun assign :: "'a option \<Rightarrow> 'a slot" where
  "assign None = Null"
| "assign (Some x) = Present x"

text \<open>Exceptions of the Python run that the model keeps apart.\<close>

datatype exn = NetworkError | IndexError | TypeError | AttributeError

text \<open>Truthiness of an optional string: \<^verbatim>\<open>None\<close> and \<^verbatim>\<open>""\<close> are false.\<close>

fun truthy :: "string option \<Rightarrow> bool" where
  "truthy None = False"
| "truthy (Some s) = (s \<noteq> [])"

text \<open>\<^verbatim>\<open>a or b\<close> on optional strings, and \<^verbatim>\<open>a or ""\<close>.\<close>

definition py_or :: "string option \<Rightarrow> string option \<Rightarrow> string option" where
  "py_or a b = (if truthy a then a else b)"

definition or_empty :: "string option \<Rightarrow> string" where
  "or_empty a = (case a of None \<Rightarrow> [] | Some s \<Rightarrow> s)"

subsection \<open>String operations\<close>

definition upper_char :: "char \<Rightarrow> char" where
  "upper_char c =
     (case map_of (zip ''abcdefghijklmnopqrstuvwxyz'' ''ABCDEFGHIJKLMNOPQRSTUVWXYZ'') c of
        None \<Rightarrow> c | Some u \<Rightarrow> u)"

definition lower_char :: "char \<Rightarrow> char" where
  "lower_char c =
     (case map_of (zip ''ABCDEFGHIJKLMNOPQRSTUVWXYZ'' ''abcdefghijklmnopqrstuvwxyz'') c of
        None \<Rightarrow> c | Some l \<Rightarrow> l)"

text \<open>\<^verbatim>\<open>s.upper()\<close> and \<^verbatim>\<open>s.lower()\<close>\<close>

definition upper :: "string \<Rightarrow> string" where
  "upper s = map upper_char s"

definition lower :: "string \<Rightarrow> string" where
  "lower s = map lower_char s"

text \<open>\<^verbatim>\<open>s.startswith(p)\<close>, \<^verbatim>\<open>s.endswith(p)\<close> and \<^verbatim>\<open>sub in s\<close>\<close>

definition startswith :: "'a list \<Rightarrow> 'a list \<Rightarrow> bool" where
  "startswith p s = (take (length p) s = p)"

definition endswith :: "string \<Rightarrow> string \<Rightarrow> bool" where
  "endswith p s = (length p \<le> length s \<and> drop (length s - length p) s = p)"

fun contains :: "string \<Rightarrow> string \<Rightarrow> bool" where
  "contains sub [] = (sub = [])"
| "contains sub (c # s) = (startswith sub (c # s) \<or> contains sub s)"

text \<open>\<^verbatim>\<open>s.split(":")\<close> and \<^verbatim>\<open>":".join(parts)\<close>, for any separator character.\<close>

fun split_on :: "char \<Rightarrow> string \<Rightarrow> string list" where
  "split_on sep [] = [[]]"
| "split_on sep (c # s) =
     (if c = sep then [] # split_on sep s
      else (case split_on sep s of
              [] \<Rightarrow> [[c]]
            | part # parts \<Rightarrow> (c # part) # parts))"

fun join :: "char \<Rightarrow> string list \<Rightarrow> string" where
  "join sep [] = []"
| "join sep [part] = part"
| "join sep (part # next_part # parts) = part @ sep # join sep (next_part # parts)"

text \<open>Whitespace as \<^verbatim>\<open>str.strip()\<close> and the pattern \<^verbatim>\<open>\s\<close> see it in ASCII text.\<close>

definition is_space :: "char \<Rightarrow> bool" where
  "is_space c =
     (c \<in> set [CHR 0x09, CHR 0x0A, CHR 0x0B, CHR 0x0C, CHR 0x0D,
                CHR 0x1C, CHR 0x1D, CHR 0x1E, CHR 0x1F, CHR 0x20])"

definition rstrip :: "(char \<Rightarrow> bool) \<Rightarrow> string \<Rightarrow> string" where
  "rstrip p s = rev (dropWhile p (rev s))"

definition strip :: "(char \<Rightarrow> bool) \<Rightarrow> string \<Rightarrow> string" where
  "strip p s = dropWhile p (rstrip p s)"

text \<open>
  \<^verbatim>\<open>_clean_version\<close>: \<^verbatim>\<open>re.sub(r"\s*\(installed\)\s*$", "", ver or "").strip()\<close>.
  The pattern matches the longest suffix made of whitespace, the word
  \<^verbatim>\<open>(installed)\<close> and whitespace again.
\<close>

definition clean_version :: "string option \<Rightarrow> string" where
  "clean_version ver =
     (let s = or_empty ver; r = rstrip is_space s
      in strip is_space
           (if endswith ''(installed)'' r
            then rstrip is_space (take (length r - length ''(installed)'') r)
            else s))"

subsection \<open>Findings\<close>

text \<open>
  A JSON scalar, for the one field whose Python type the program tests
  (\<^verbatim>\<open>isinstance(score, (int, float))\<close>, which holds of a \<^verbatim>\<open>bool\<close> too).  A finite
  float is the rational number it denotes; the comparisons with 9.0, 7.0 and 4.0 are
  exact on it.
\<close>

datatype scalar = PyInt int | PyFloat rat | PyBool bool | PyStr string

fun is_number :: "scalar \<Rightarrow> bool" where
  "is_number (PyInt i) = True"
| "is_number (PyFloat x) = True"
| "is_number (PyBool b) = True"
| "is_number (PyStr s) = False"

fun number_value :: "scalar \<Rightarrow> rat" where
  "number_value (PyInt i) = of_int i"
| "number_value (PyFloat x) = x"
| "number_value (PyBool b) = (if b then 1 else 0)"
| "number_value (PyStr s) = 0"

text \<open>The \<^verbatim>\<open>cvssData\<close> object of the registry.\<close>

record cvss_data =
  baseSeverity :: "string option"
  baseScore :: "scalar option"

text \<open>The \<^verbatim>\<open>affected[*].ranges[*].events[*]\<close> structure of an advisory.\<close>

record event =
  ev_introduced :: "string option"
  ev_fixed :: "string option"
  ev_last_affected :: "string option"
  ev_limit :: "string option"

record osv_range =
  r_events :: "event list slot"

record affected_entry =
  a_ranges :: "osv_range list"

text \<open>
  The id of an advisory and the elements of its alias list reach the findings as the
  response has them (\<^verbatim>\<open>v.get("id")\<close>, \<^verbatim>\<open>v.get("aliases") or []\<close>), and the enrichment
  pass calls \<^verbatim>\<open>startswith\<close> and \<^verbatim>\<open>re.match\<close> on them outside its \<^verbatim>\<open>try\<close> block.  Each
  is a JSON scalar: a string, an integer, a finite float or a boolean, and \<open>None\<close> for
  \<^verbatim>\<open>null\<close>; the alias list itself is a list, as the service documents it.  A string is
  the list of its code points, so that it can hold the decimal digits outside ASCII that
  \<^verbatim>\<open>\d\<close> matches; \<open>codes\<close> gives the code points of an ASCII literal.
\<close>

type_synonym unicode = "nat list"

definition codes :: "string \<Rightarrow> unicode" where
  "codes s = map of_char s"

datatype json_scalar = JStr unicode | JInt int | JFloat rat | JBool bool

text \<open>Truthiness of such a value: \<^verbatim>\<open>None\<close>, \<^verbatim>\<open>""\<close>, \<^verbatim>\<open>0\<close>, \<^verbatim>\<open>0.0\<close> and \<^verbatim>\<open>False\<close> are false.\<close>

fun truthy_scalar :: "json_scalar option \<Rightarrow> bool" where
  "truthy_scalar None = False"
| "truthy_scalar (Some (JStr s)) = (s \<noteq> [])"
| "truthy_scalar (Some (JInt i)) = (i \<noteq> 0)"
| "truthy_scalar (Some (JFloat x)) = (x \<noteq> 0)"
| "truthy_scalar (Some (JBool b)) = b"

text \<open>
  A finding, as \<^verbatim>\<open>_osv_results_to_findings\<close> and \<^verbatim>\<open>_nvd_results_to_findings\<close> build it.
  The key \<^verbatim>\<open>cvss\<close> is missing from a finding of the batch advisory service until the
  enrichment pass assigns it.
\<close>

record finding =
  f_source :: string
  f_id :: "json_scalar option"
  f_package :: "string option"
  f_ecosystem :: "string option"
  f_version :: "string option"
  f_summary :: "string option"
  f_severity :: "string option"
  f_references :: "string option list"
  f_aliases :: "json_scalar option list"
  f_affected :: "affected_entry list"
  f_cvss :: "cvss_data slot"

subsection \<open>Responses of the two services\<close>

text \<open>The batch advisory service (OSV): \<^verbatim>\<open>{"results": [{"vulns": [...]}, ...]}\<close>.\<close>

record severity_entry =
  sv_type :: "string option"
  sv_score :: "string option"
  sv_severity :: "string option"

record reference =
  ref_url :: "string option"

record osv_vuln =
  v_id :: "json_scalar option"
  v_summary :: "string option"
  v_severity :: "severity_entry list"
  v_references :: "reference list"
  v_aliases :: "json_scalar option list"
  v_affected :: "affected_entry list"

record osv_package =
  pkg_name :: "string option"
  pkg_ecosystem :: "string option"

record osv_result =
  res_package :: "osv_package option"
  res_version :: "string option"
  res_vulns :: "osv_vuln list"

record osv_response =
  osv_results :: "osv_result list"

text \<open>The registry (NVD): the CVE lookup and the CPE keyword search.\<close>

record cvss_metric =
  cvssData :: "cvss_data option"

record nvd_metrics =
  cvssMetricV31 :: "cvss_metric list"
  cvssMetricV30 :: "cvss_metric list"

record description =
  d_value :: "string option"

record nvd_cve =
  cve_id :: "json_scalar option"
  cve_metrics :: nvd_metrics
  cve_descriptions :: "description list"
  cve_references :: "reference list"

record nvd_item =
  item_cve :: nvd_cve

record nvd_response =
  nvd_vulnerabilities :: "nvd_item list"

record product =
  cpeName :: "string option"

subsection \<open>The network\<close>

text \<open>
  Every HTTP request of the script is one of four calls.  The network is a function
  from the requests issued so far and the next request to its outcome; \<open>None\<close> is any
  exception of the call (timeout, connection error, error status, undecodable body).
  Each client method appends its request to the list of issued requests.
\<close>

datatype osv_query = PackageQuery string string string | CommitQuery string

datatype request =
  OsvQueryBatch "osv_query list"
| NvdCpeSearch string
| NvdCvesByCpe string
| NvdCveById unicode

datatype response =
  OsvBatch osv_response
| CpeProducts "product list"
| NvdCves nvd_response

type_synonym network = "request list \<Rightarrow> request \<Rightarrow> response option"

text \<open>\<^verbatim>\<open>OSVClient.query_batch\<close>: an empty list of queries returns without a request.\<close>

definition query_batch ::
  "network \<Rightarrow> request list \<Rightarrow> osv_query list \<Rightarrow> (exn + osv_response) \<times> request list" where
  "query_batch net sent packages =
     (if packages = [] then (Inr \<lparr>osv_results = []\<rparr>, sent)
      else (case net sent (OsvQueryBatch packages) of
              Some (OsvBatch r) \<Rightarrow> (Inr r, sent @ [OsvQueryBatch packages])
            | _ \<Rightarrow> (Inl NetworkError, sent @ [OsvQueryBatch packages])))"

text \<open>\<^verbatim>\<open>NVDClient.find_cpe_candidates\<close> and \<^verbatim>\<open>NVDClient.cves_by_cpe\<close>\<close>

definition find_cpe_candidates ::
  "network \<Rightarrow> request list \<Rightarrow> string \<Rightarrow> (exn + product list) \<times> request list" where
  "find_cpe_candidates net sent keyword =
     (case net sent (NvdCpeSearch keyword) of
        Some (CpeProducts ps) \<Rightarrow> (Inr ps, sent @ [NvdCpeSearch keyword])
      | _ \<Rightarrow> (Inl NetworkError, sent @ [NvdCpeSearch keyword]))"

definition cves_by_cpe ::
  "network \<Rightarrow> request list \<Rightarrow> string \<Rightarrow> (exn + nvd_response) \<times> request list" where
  "cves_by_cpe net sent cpe_name =
     (case net sent (NvdCvesByCpe cpe_name) of
        Some (NvdCves r) \<Rightarrow> (Inr r, sent @ [NvdCvesByCpe cpe_name])
      | _ \<Rightarrow> (Inl NetworkError, sent @ [NvdCvesByCpe cpe_name]))"

text \<open>
  The lookup of the enrichment pass:
  \<^verbatim>\<open>self.nvd.session.get(CVE_URL, params={"cveId": ...}, timeout=30).json()\<close>.
\<close>

definition cve_by_id ::
  "network \<Rightarrow> request list \<Rightarrow> unicode \<Rightarrow> (exn + nvd_response) \<times> request list" where
  "cve_by_id net sent cve =
     (case net sent (NvdCveById cve) of
        Some (NvdCves r) \<Rightarrow> (Inr r, sent @ [NvdCveById cve])
      | _ \<Rightarrow> (Inl NetworkError, sent @ [NvdCveById cve]))"

subsection \<open>The checker object\<close>

record dep_info =
  d_version :: "string option"
  d_commit :: "string option"

record stage_pkg =
  p_name :: "string option"
  p_version :: "string option"

record stage_entry =
  st_stage :: string
  st_ecosystem :: "string option"
  st_apt :: "stage_pkg list"
  st_apk :: "stage_pkg list"

text \<open>
  \<^verbatim>\<open>self.dependencies\<close>: each dictionary is the list of its items in insertion order,
  the order in which the loops visit them.
\<close>

record inventory =
  conan :: "(string \<times> dep_info) list"
  system :: "(string \<times> dep_info) list"
  submodules :: "(string \<times> dep_info) list"
  cmake :: "(string \<times> dep_info) list"
  system_by_stage :: "stage_entry list"

record checker =
  offline :: bool
  ecosystem :: "string option"
  dependencies :: inventory
  vulnerabilities :: "finding list"

section \<open>Severity (\<^verbatim>\<open>_sev_order\<close>, \<^verbatim>\<open>_highest_severity\<close>, \<^verbatim>\<open>_severity_of\<close>)\<close>

text \<open>
  \<^verbatim>\<open>order = {"LOW": 0, "MEDIUM": 1, "HIGH": 2, "CRITICAL": 3}\<close> and
  \<^verbatim>\<open>order.get((sev or "").upper(), -1)\<close>
\<close>

definition sev_order :: "string option \<Rightarrow> int" where
  "sev_order sev =
     (case map_of [(''LOW'', 0), (''MEDIUM'', 1), (''HIGH'', 2), (''CRITICAL'', 3)]
             (upper (or_empty sev)) of
        None \<Rightarrow> - 1 | Some n \<Rightarrow> n)"

text \<open>\<^verbatim>\<open>v.get("cvss") or {}\<close>: the empty dictionary has neither key.\<close>

definition cvss_or_empty :: "finding \<Rightarrow> cvss_data" where
  "cvss_or_empty v =
     (case get (f_cvss v) of
        None \<Rightarrow> \<lparr>baseSeverity = None, baseScore = None\<rparr>
      | Some c \<Rightarrow> c)"

text \<open>
  \<^verbatim>\<open>(v.get("severity") or (v.get("cvss") or {}).get("baseSeverity") or "UNKNOWN").upper()\<close>
\<close>

definition label_upper :: "finding \<Rightarrow> string" where
  "label_upper v =
     upper (or_empty (py_or (py_or (f_severity v) (baseSeverity (cvss_or_empty v)))
                            (Some ''UNKNOWN'')))"

fun highest_loop :: "string \<Rightarrow> int \<Rightarrow> finding list \<Rightarrow> string" where
  "highest_loop best best_score [] = best"
| "highest_loop best best_score (v # vulns_for_pkg) =
     (let sev = label_upper v; s = sev_order (Some sev)
      in if s > best_score then highest_loop sev s vulns_for_pkg
         else highest_loop best best_score vulns_for_pkg)"

definition highest_severity :: "finding list \<Rightarrow> string" where
  "highest_severity vulns_for_pkg = highest_loop ''UNKNOWN'' (- 1) vulns_for_pkg"

definition severity_of :: "finding \<Rightarrow> string" where
  "severity_of v =
     (let sev = upper (or_empty (f_severity v))
      in if sev \<noteq> [] then sev
         else
           (let cvss = cvss_or_empty v;
                base_sev = upper (or_empty (baseSeverity cvss))
            in if base_sev \<noteq> [] then base_sev
               else
                 (case baseScore cvss of
                    None \<Rightarrow> ''UNKNOWN''
                  | Some score \<Rightarrow>
                      if is_number score then
                        (if number_value score \<ge> 9 then ''CRITICAL''
                         else if number_value score \<ge> 7 then ''HIGH''
                         else if number_value score \<ge> 4 then ''MEDIUM''
                         else ''LOW'')
                      else ''UNKNOWN'')))"

section \<open>Fixed versions (\<^verbatim>\<open>_osv_fixed_versions\<close>)\<close>

text \<open>The innermost loop: \<^verbatim>\<open>for ev in r.get("events") or []\<close>.\<close>

definition events_or_empty :: "osv_range \<Rightarrow> event list" where
  "events_or_empty r = (case get (r_events r) of None \<Rightarrow> [] | Some evs \<Rightarrow> evs)"

fun events_loop :: "event list \<Rightarrow> string set \<Rightarrow> string set" where
  "events_loop [] fixed = fixed"
| "events_loop (ev # evs) fixed =
     (if truthy (ev_fixed ev) then events_loop evs (insert (or_empty (ev_fixed ev)) fixed)
      else events_loop evs fixed)"

text \<open>
  \<^verbatim>\<open>last = r.get("events", [{}])[-1]\<close>: the default is used for a missing key only;
  indexing \<^verbatim>\<open>None\<close> raises \<^verbatim>\<open>TypeError\<close> and indexing an empty list raises
  \<^verbatim>\<open>IndexError\<close>.
\<close>

definition last_event :: "osv_range \<Rightarrow> exn + event" where
  "last_event r =
     (case r_events r of
        Missing \<Rightarrow> Inr \<lparr>ev_introduced = None, ev_fixed = None,
                        ev_last_affected = None, ev_limit = None\<rparr>
      | Null \<Rightarrow> Inl TypeError
      | Present evs \<Rightarrow> if evs = [] then Inl IndexError else Inr (last evs))"

fun ranges_loop :: "osv_range list \<Rightarrow> string set \<Rightarrow> exn + string set" where
  "ranges_loop [] fixed = Inr fixed"
| "ranges_loop (r # rs) fixed =
     (let fixed1 = events_loop (events_or_empty r) fixed
      in case last_event r of
           Inl e \<Rightarrow> Inl e
         | Inr lst \<Rightarrow>
             if truthy (ev_limit lst)
             then ranges_loop rs (insert (or_empty (ev_limit lst)) fixed1)
             else ranges_loop rs fixed1)"

fun affected_loop :: "affected_entry list \<Rightarrow> string set \<Rightarrow> exn + string set" where
  "affected_loop [] fixed = Inr fixed"
| "affected_loop (aff # affs) fixed =
     (case ranges_loop (a_ranges aff) fixed of
        Inl e \<Rightarrow> Inl e
      | Inr fixed1 \<Rightarrow> affected_loop affs fixed1)"

definition osv_fixed_versions :: "finding \<Rightarrow> exn + string list" where
  "osv_fixed_versions v =
     (case affected_loop (f_affected v) {} of
        Inl e \<Rightarrow> Inl e
      | Inr fixed \<Rightarrow> Inr (sorted_list_of_set fixed))"

section \<open>Deduplication (\<^verbatim>\<open>_dedupe_findings\<close>)\<close>

text \<open>
  \<^verbatim>\<open>key = it.get("id") or (it.get("source"), it.get("package"), it.get("version"), it.get("summary"))\<close>:
  the id when it is truthy, a 4-tuple otherwise.  The set \<^verbatim>\<open>seen\<close> compares keys with
  \<^verbatim>\<open>==\<close>: a string equals only the same string, and an integer, a float and a boolean
  are equal when they denote the same number (\<^verbatim>\<open>1 == 1.0 == True\<close>); none of them equals
  a tuple.  Hence the constructors.
\<close>

datatype id_value = StrId unicode | NumId rat

fun as_key :: "json_scalar \<Rightarrow> id_value" where
  "as_key (JStr s) = StrId s"
| "as_key (JInt i) = NumId (of_int i)"
| "as_key (JFloat x) = NumId x"
| "as_key (JBool b) = NumId (if b then 1 else 0)"

datatype identity_key =
  IdKey id_value
| CompositeKey string "string option" "string option" "string option"

definition finding_key :: "finding \<Rightarrow> identity_key" where
  "finding_key it =
     (case f_id it of
        None \<Rightarrow> CompositeKey (f_source it) (f_package it) (f_version it) (f_summary it)
      | Some a \<Rightarrow>
          if truthy_scalar (Some a) then IdKey (as_key a)
          else CompositeKey (f_source it) (f_package it) (f_version it) (f_summary it))"

text \<open>The loop of \<^verbatim>\<open>_dedupe_findings\<close>, with its two variables \<^verbatim>\<open>seen\<close> and \<^verbatim>\<open>out\<close>.\<close>

fun dedupe_loop :: "identity_key set \<Rightarrow> finding list \<Rightarrow> finding list \<Rightarrow> finding list" where
  "dedupe_loop seen out [] = out"
| "dedupe_loop seen out (it # items) =
     (if finding_key it \<in> seen then dedupe_loop seen out items
      else dedupe_loop (insert (finding_key it) seen) (out @ [it]) items)"

definition dedupe_findings :: "finding list \<Rightarrow> finding list" where
  "dedupe_findings items = dedupe_loop {} [] items"

section \<open>Normalisation of the responses\<close>

text \<open>
  \<^verbatim>\<open>_osv_results_to_findings\<close>.  The inner loop over the severity list:
  \<^verbatim>\<open>sev = None; for sv in v.get("severity") or []: sev = sv.get("severity") or sev\<close>.
\<close>

fun severity_loop :: "string option \<Rightarrow> severity_entry list \<Rightarrow> string option" where
  "severity_loop sev [] = sev"
| "severity_loop sev (sv # svs) = severity_loop (py_or (sv_severity sv) sev) svs"

text \<open>
  The attribution of a result: the entry of \<^verbatim>\<open>meta\<close> at the same index when there is
  one, and the package embedded in the result when that leaves no package name.
\<close>

definition attribution ::
  "(string \<times> string \<times> string) list option \<Rightarrow> nat \<Rightarrow> osv_result \<Rightarrow>
   string option \<times> string option \<times> string option" where
  "attribution meta idx res =
     (let from_meta =
            (case meta of
               None \<Rightarrow> (None, None, None)
             | Some m \<Rightarrow>
                 if m \<noteq> [] \<and> idx < length m
                 then (case m ! idx of (p, e, v) \<Rightarrow> (Some p, Some e, Some v))
                 else (None, None, None))
      in if \<not> truthy (fst from_meta)
         then (case res_package res of
                 None \<Rightarrow> (None, None, res_version res)
               | Some pkg \<Rightarrow> (pkg_name pkg, pkg_ecosystem pkg, res_version res))
         else from_meta)"

definition osv_finding ::
  "string option \<times> string option \<times> string option \<Rightarrow> osv_vuln \<Rightarrow> finding" where
  "osv_finding attr v =
     (case attr of (name, eco, ver) \<Rightarrow>
        \<lparr>f_source = ''OSV'',
         f_id = v_id v,
         f_package = name,
         f_ecosystem = eco,
         f_version = ver,
         f_summary = v_summary v,
         f_severity = severity_loop None (v_severity v),
         f_references = map ref_url (v_references v),
         f_aliases = v_aliases v,
         f_affected = v_affected v,
         f_cvss = Missing\<rparr>)"

fun vulns_loop ::
  "string option \<times> string option \<times> string option \<Rightarrow> osv_vuln list \<Rightarrow> finding list \<Rightarrow>
   finding list" where
  "vulns_loop attr [] findings = findings"
| "vulns_loop attr (v # vs) findings = vulns_loop attr vs (findings @ [osv_finding attr v])"

fun results_loop ::
  "(string \<times> string \<times> string) list option \<Rightarrow> nat \<Rightarrow> osv_result list \<Rightarrow> finding list \<Rightarrow>
   finding list" where
  "results_loop meta idx [] findings = findings"
| "results_loop meta idx (res # rest) findings =
     results_loop meta (Suc idx) rest
       (vulns_loop (attribution meta idx res) (res_vulns res) findings)"

definition osv_results_to_findings ::
  "osv_response \<Rightarrow> (string \<times> string \<times> string) list option \<Rightarrow> finding list" where
  "osv_results_to_findings osv_batch_resp meta =
     results_loop meta 0 (osv_results osv_batch_resp) []"

text \<open>
  \<^verbatim>\<open>_nvd_results_to_findings\<close>.  The choice of the metric:
  \<^verbatim>\<open>for key in ("cvssMetricV31", "cvssMetricV30"): if key in metrics and metrics[key]: ... break\<close>.
  The result is \<open>None\<close> when neither key holds a non-empty list, and the
  \<^verbatim>\<open>cvssData\<close> of the first entry (which may be \<^verbatim>\<open>None\<close>) otherwise.
\<close>

definition first_metric :: "nvd_metrics \<Rightarrow> cvss_data option option" where
  "first_metric metrics =
     (case cvssMetricV31 metrics of
        m # _ \<Rightarrow> Some (cvssData m)
      | [] \<Rightarrow> (case cvssMetricV30 metrics of
                 m # _ \<Rightarrow> Some (cvssData m)
               | [] \<Rightarrow> None))"

definition nvd_finding :: "string \<Rightarrow> string \<Rightarrow> nvd_item \<Rightarrow> finding" where
  "nvd_finding package version item =
     (let cve = item_cve item
      in \<lparr>f_source = ''NVD'',
          f_id = cve_id cve,
          f_package = Some package,
          f_ecosystem = None,
          f_version = Some version,
          f_summary = (case cve_descriptions cve of [] \<Rightarrow> None | d # _ \<Rightarrow> d_value d),
          f_severity = None,
          f_references = map ref_url (cve_references cve),
          f_aliases = [],
          f_affected = [],
          f_cvss = (case first_metric (cve_metrics cve) of
                      None \<Rightarrow> Null
                    | Some c \<Rightarrow> assign c)\<rparr>)"

definition nvd_results_to_findings :: "nvd_response \<Rightarrow> string \<Rightarrow> string \<Rightarrow> finding list" where
  "nvd_results_to_findings nvd_resp package version =
     map (nvd_finding package version) (nvd_vulnerabilities nvd_resp)"

section \<open>Cross-enrichment (\<^verbatim>\<open>_enrich_osv_with_nvd\<close>)\<close>

text \<open>
  \<^verbatim>\<open>[a for a in aliases if a.startswith("CVE-")]\<close>: an element that is not a string has
  no method \<^verbatim>\<open>startswith\<close>, and the comprehension raises \<^verbatim>\<open>AttributeError\<close>.
\<close>

fun cve_aliases :: "json_scalar option list \<Rightarrow> exn + unicode list" where
  "cve_aliases [] = Inr []"
| "cve_aliases (a # aliases) =
     (case a of
        Some (JStr s) \<Rightarrow>
          (case cve_aliases aliases of
             Inl e \<Rightarrow> Inl e
           | Inr ids \<Rightarrow> Inr (if startswith (codes ''CVE-'') s then s # ids else ids))
      | _ \<Rightarrow> Inl AttributeError)"

text \<open>
  \<^verbatim>\<open>re.match(r"UBUNTU-CVE-(\d{4}-\d+)$", fid)\<close>: the group, when the id matches.  The
  class \<^verbatim>\<open>\d\<close> of a string pattern is the category of decimal digits of the Unicode
  database of the interpreter; it is the parameter \<open>nd\<close>, a predicate on code points.
  The anchor \<^verbatim>\<open>$\<close> also matches before a newline that ends the string.
\<close>

definition year_and_number :: "(nat \<Rightarrow> bool) \<Rightarrow> unicode \<Rightarrow> bool" where
  "year_and_number nd g =
     (length g \<ge> 6 \<and> list_all nd (take 4 g) \<and> g ! 4 = of_char CHR ''-''
      \<and> list_all nd (drop 5 g))"

definition ubuntu_cve_match :: "(nat \<Rightarrow> bool) \<Rightarrow> unicode \<Rightarrow> unicode option" where
  "ubuntu_cve_match nd fid =
     (if startswith (codes ''UBUNTU-CVE-'') fid then
        (let g = drop (length ''UBUNTU-CVE-'') fid
         in if year_and_number nd g then Some g
            else if g \<noteq> [] \<and> last g = of_char CHR 0x0A \<and> year_and_number nd (butlast g)
                 then Some (butlast g)
            else None)
      else None)"

text \<open>\<^verbatim>\<open>fid = f.get("id") or ""\<close>\<close>

definition id_or_empty :: "json_scalar option \<Rightarrow> json_scalar" where
  "id_or_empty a = (case a of None \<Rightarrow> JStr [] | Some x \<Rightarrow> if truthy_scalar a then x else JStr [])"

text \<open>
  The CVE identifiers of a finding: the aliases that start with \<^verbatim>\<open>CVE-\<close>, or else the
  one recovered from the id.  \<^verbatim>\<open>re.match\<close> raises \<^verbatim>\<open>TypeError\<close> for an id that is not a
  string.
\<close>

definition cve_ids :: "(nat \<Rightarrow> bool) \<Rightarrow> finding \<Rightarrow> exn + unicode list" where
  "cve_ids nd f =
     (case cve_aliases (f_aliases f) of
        Inl e \<Rightarrow> Inl e
      | Inr from_aliases \<Rightarrow>
          if from_aliases \<noteq> [] then Inr from_aliases
          else
            (case id_or_empty (f_id f) of
               JStr fid \<Rightarrow>
                 (case ubuntu_cve_match nd fid of
                    Some g \<Rightarrow> Inr [codes ''CVE-'' @ g]
                  | None \<Rightarrow> if startswith (codes ''CVE-'') fid then Inr [fid] else Inr [])
             | _ \<Rightarrow> Inl TypeError))"

text \<open>
  The body of the \<^verbatim>\<open>try\<close> block once the response has arrived: a response without
  vulnerabilities, or whose first entry has no non-empty metric list, leaves the finding
  as it is; otherwise the key \<^verbatim>\<open>cvss\<close> is assigned.
\<close>

definition apply_metrics :: "finding \<Rightarrow> nvd_response \<Rightarrow> finding" where
  "apply_metrics f data =
     (case nvd_vulnerabilities data of
        [] \<Rightarrow> f
      | item # _ \<Rightarrow>
          (case first_metric (cve_metrics (item_cve item)) of
             None \<Rightarrow> f
           | Some c \<Rightarrow> f\<lparr>f_cvss := assign c\<rparr>))"

text \<open>
  One iteration of the loop of \<^verbatim>\<open>_enrich_osv_with_nvd\<close>.  The identifiers are computed
  before the \<^verbatim>\<open>try\<close> block, so their exceptions leave the function; an exception of the
  lookup is caught and leaves the finding as it is.
\<close>

definition enrich_one ::
  "(nat \<Rightarrow> bool) \<Rightarrow> network \<Rightarrow> request list \<Rightarrow> finding \<Rightarrow> (exn + finding) \<times> request list" where
  "enrich_one nd net sent f =
     (if f_source f \<noteq> ''OSV'' \<or> truthy (f_severity f) then (Inr f, sent)
      else
        (case cve_ids nd f of
           Inl e \<Rightarrow> (Inl e, sent)
         | Inr [] \<Rightarrow> (Inr f, sent)
         | Inr (cve # _) \<Rightarrow>
             (case cve_by_id net sent cve of
                (Inr data, sent') \<Rightarrow> (Inr (apply_metrics f data), sent')
              | (Inl e, sent') \<Rightarrow> (Inr f, sent'))))"

text \<open>
  The loop.  It updates the findings in place; the result is the list after the loop,
  or the exception that ended it.
\<close>

fun enrich_osv_with_nvd ::
  "(nat \<Rightarrow> bool) \<Rightarrow> network \<Rightarrow> request list \<Rightarrow> finding list \<Rightarrow>
   (exn + finding list) \<times> request list" where
  "enrich_osv_with_nvd nd net sent [] = (Inr [], sent)"
| "enrich_osv_with_nvd nd net sent (f # items) =
     (case enrich_one nd net sent f of
        (Inl e, sent') \<Rightarrow> (Inl e, sent')
      | (Inr f', sent') \<Rightarrow>
          (case enrich_osv_with_nvd nd net sent' items of
             (Inl e, sent'') \<Rightarrow> (Inl e, sent'')
           | (Inr items', sent'') \<Rightarrow> (Inr (f' # items'), sent'')))"

section \<open>Identifier mapping (\<^verbatim>\<open>guess_cpe_for_conan\<close>)\<close>

text \<open>The loop over the candidates: the parts of the first one that matches.\<close>

fun best_loop :: "string \<Rightarrow> product list \<Rightarrow> string list option" where
  "best_loop name_l [] = None"
| "best_loop name_l (item # candidates) =
     (if \<not> truthy (cpeName item) then best_loop name_l candidates
      else
        (let parts = split_on CHR '':'' (or_empty (cpeName item))
         in if length parts \<ge> 5 \<and> parts ! 2 = ''a''
               \<and> (lower (parts ! 3) = name_l \<or> lower (parts ! 4) = name_l
                   \<or> contains name_l (lower (parts ! 4)))
            then Some parts
            else best_loop name_l candidates))"

text \<open>
  \<^verbatim>\<open>best += ["*"] * (13 - len(best)); best[5] = version or "*"; return ":".join(best[:13])\<close>
\<close>

definition pad_and_inject :: "string list \<Rightarrow> string \<Rightarrow> string list" where
  "pad_and_inject best version =
     take 13 ((best @ replicate (13 - length best) ''*'')
                [5 := (if version = [] then ''*'' else version)])"

definition guess_cpe_for_conan ::
  "network \<Rightarrow> request list \<Rightarrow> string \<Rightarrow> string \<Rightarrow> string option \<times> request list" where
  "guess_cpe_for_conan net sent name version =
     (case find_cpe_candidates net sent name of
        (Inl e, sent') \<Rightarrow> (None, sent')
      | (Inr candidates, sent') \<Rightarrow>
          (case best_loop (lower name) candidates of
             None \<Rightarrow> (None, sent')
           | Some best \<Rightarrow> (Some (join CHR '':'' (pad_and_inject best version)), sent')))"

section \<open>Queries (\<^verbatim>\<open>_query_osv_for_system\<close>, \<^verbatim>\<open>_query_osv_for_submodules\<close>, \<^verbatim>\<open>_query_nvd_for_conan\<close>)\<close>

definition ubuntu_pkg_to_osv_query :: "string \<Rightarrow> string \<Rightarrow> osv_query" where
  "ubuntu_pkg_to_osv_query name version = PackageQuery name ''Ubuntu'' version"

definition debian_pkg_to_osv_query :: "string \<Rightarrow> string \<Rightarrow> osv_query" where
  "debian_pkg_to_osv_query name version = PackageQuery name ''Debian'' version"

text \<open>The loop over the \<^verbatim>\<open>apt\<close> packages of a stage; \<open>queries\<close> and \<open>meta\<close> grow together.\<close>

fun apt_loop ::
  "string \<Rightarrow> string \<Rightarrow> stage_pkg list \<Rightarrow>
   osv_query list \<times> (string \<times> string \<times> string) list \<Rightarrow>
   osv_query list \<times> (string \<times> string \<times> string) list" where
  "apt_loop stage eco [] acc = acc"
| "apt_loop stage eco (p # ps) (queries, meta) =
     (let name = or_empty (p_name p); ver = clean_version (p_version p)
      in if name = [] \<or> ver = [] \<or> ver \<in> set [''system'', ''required'', ''unknown'']
         then apt_loop stage eco ps (queries, meta)
         else if eco \<in> set [''Ubuntu'', ''Debian'']
         then apt_loop stage eco ps
                (queries @ [if eco = ''Ubuntu'' then ubuntu_pkg_to_osv_query name ver
                            else debian_pkg_to_osv_query name ver],
                 meta @ [(stage @ ''::'' @ name, eco, ver)])
         else apt_loop stage eco ps (queries, meta))"

text \<open>The loop over the \<^verbatim>\<open>apk\<close> packages of a stage.\<close>

fun apk_loop ::
  "string \<Rightarrow> string \<Rightarrow> stage_pkg list \<Rightarrow>
   osv_query list \<times> (string \<times> string \<times> string) list \<Rightarrow>
   osv_query list \<times> (string \<times> string \<times> string) list" where
  "apk_loop stage eco [] acc = acc"
| "apk_loop stage eco (p # ps) (queries, meta) =
     (if eco \<noteq> ''Alpine'' then apk_loop stage eco ps (queries, meta)
      else
        (let name = or_empty (p_name p); ver = or_empty (p_version p)
         in if name = [] \<or> ver = [] \<or> ver = ''unknown''
            then apk_loop stage eco ps (queries, meta)
            else apk_loop stage eco ps
                   (queries @ [PackageQuery name ''Alpine'' ver],
                    meta @ [(stage @ ''::'' @ name, ''Alpine'', ver)])))"

text \<open>
  The loop over the stages.  A stage whose batch query raises contributes no finding
  and the loop goes on (\<^verbatim>\<open>except Exception as e: print(...)\<close>).
\<close>

fun stages_loop ::
  "network \<Rightarrow> stage_entry list \<Rightarrow> finding list \<Rightarrow> request list \<Rightarrow>
   finding list \<times> request list" where
  "stages_loop net [] findings sent = (findings, sent)"
| "stages_loop net (st # sts) findings sent =
     (let eco = or_empty (st_ecosystem st)
      in if eco \<notin> set [''Ubuntu'', ''Debian'', ''Alpine'']
         then stages_loop net sts findings sent
         else
           (case apk_loop (st_stage st) eco (st_apk st)
                   (apt_loop (st_stage st) eco (st_apt st) ([], [])) of
              (queries, meta) \<Rightarrow>
                if queries = [] then stages_loop net sts findings sent
                else
                  (case query_batch net sent queries of
                     (Inr resp, sent') \<Rightarrow>
                       stages_loop net sts
                         (findings @ osv_results_to_findings resp (Some meta)) sent'
                   | (Inl e, sent') \<Rightarrow> stages_loop net sts findings sent')))"

text \<open>The fallback loop over \<^verbatim>\<open>self.dependencies["system"]\<close>.\<close>

fun system_loop ::
  "string \<Rightarrow> (string \<times> dep_info) list \<Rightarrow>
   osv_query list \<times> (string \<times> string \<times> string) list \<Rightarrow>
   osv_query list \<times> (string \<times> string \<times> string) list" where
  "system_loop eco [] acc = acc"
| "system_loop eco ((pkg, info) # items) (queries, meta) =
     (let ver = clean_version (d_version info)
      in if ver = [] \<or> ver \<in> set [''system'', ''required'', ''unknown'']
         then system_loop eco items (queries, meta)
         else if eco = ''Ubuntu''
         then system_loop eco items
                (queries @ [ubuntu_pkg_to_osv_query pkg ver], meta @ [(pkg, ''Ubuntu'', ver)])
         else if eco = ''Debian''
         then system_loop eco items
                (queries @ [debian_pkg_to_osv_query pkg ver], meta @ [(pkg, ''Debian'', ver)])
         else system_loop eco items (queries, meta))"

definition query_osv_for_system ::
  "network \<Rightarrow> request list \<Rightarrow> checker \<Rightarrow> (exn + finding list) \<times> request list" where
  "query_osv_for_system net sent self =
     (if offline self then (Inr [], sent)
      else if system_by_stage (dependencies self) \<noteq> []
      then (case stages_loop net (system_by_stage (dependencies self)) [] sent of
              (findings, sent') \<Rightarrow> (Inr findings, sent'))
      else if \<not> truthy (ecosystem self) then (Inr [], sent)
      else
        (case system_loop (or_empty (ecosystem self)) (system (dependencies self)) ([], []) of
           (queries, meta) \<Rightarrow>
             if queries = [] then (Inr [], sent)
             else
               (case query_batch net sent queries of
                  (Inr resp, sent') \<Rightarrow> (Inr (osv_results_to_findings resp (Some meta)), sent')
                | (Inl e, sent') \<Rightarrow> (Inl e, sent'))))"

text \<open>\<^verbatim>\<open>commit = (info.get("commit") or "").strip("-+ ")\<close>\<close>

fun commit_loop :: "(string \<times> dep_info) list \<Rightarrow> osv_query list \<Rightarrow> osv_query list" where
  "commit_loop [] queries = queries"
| "commit_loop ((name, info) # items) queries =
     (let commit = strip (\<lambda>c. c \<in> set ''-+ '') (or_empty (d_commit info))
      in if commit \<noteq> [] then commit_loop items (queries @ [CommitQuery commit])
         else commit_loop items queries)"

definition query_osv_for_submodules ::
  "network \<Rightarrow> request list \<Rightarrow> checker \<Rightarrow> (exn + finding list) \<times> request list" where
  "query_osv_for_submodules net sent self =
     (if offline self then (Inr [], sent)
      else
        (let queries = commit_loop (submodules (dependencies self)) []
         in if queries = [] then (Inr [], sent)
            else
              (case query_batch net sent queries of
                 (Inr resp, sent') \<Rightarrow> (Inr (osv_results_to_findings resp None), sent')
               | (Inl e, sent') \<Rightarrow> (Inl e, sent'))))"

text \<open>
  The loop of \<^verbatim>\<open>_query_nvd_for_conan\<close>.  An exception of \<^verbatim>\<open>cves_by_cpe\<close> leaves the
  function, and the findings collected so far are lost with it.
\<close>

fun conan_loop ::
  "network \<Rightarrow> (string \<times> dep_info) list \<Rightarrow> finding list \<Rightarrow> request list \<Rightarrow>
   (exn + finding list) \<times> request list" where
  "conan_loop net [] findings sent = (Inr findings, sent)"
| "conan_loop net ((name, info) # items) findings sent =
     (let ver = clean_version (d_version info)
      in if ver = [] \<or> lower ver = ''unknown'' then conan_loop net items findings sent
         else
           (case guess_cpe_for_conan net sent name ver of
              (None, sent') \<Rightarrow> conan_loop net items findings sent'
            | (Some cpe, sent') \<Rightarrow>
                if cpe = [] then conan_loop net items findings sent'
                else
                  (case cves_by_cpe net sent' cpe of
                     (Inl e, sent'') \<Rightarrow> (Inl e, sent'')
                   | (Inr data, sent'') \<Rightarrow>
                       conan_loop net items
                         (findings @ nvd_results_to_findings data name ver) sent'')))"

definition query_nvd_for_conan ::
  "network \<Rightarrow> request list \<Rightarrow> checker \<Rightarrow> (exn + finding list) \<times> request list" where
  "query_nvd_for_conan net sent self =
     (if offline self then (Inr [], sent)
      else conan_loop net (conan (dependencies self)) [] sent)"

section \<open>The pipeline (\<^verbatim>\<open>_check_vulnerabilities\<close>, \<^verbatim>\<open>_generate_report\<close>, \<^verbatim>\<open>run_security_check\<close>)\<close>

text \<open>
  \<^verbatim>\<open>try: findings.extend(query()) except Exception as e: print(...)\<close>: a query that
  raises adds nothing.  The call of \<^verbatim>\<open>_enrich_osv_with_nvd\<close> stands outside any
  \<^verbatim>\<open>try\<close>, so its exception leaves \<^verbatim>\<open>_check_vulnerabilities\<close>.
\<close>

definition extend_with :: "finding list \<Rightarrow> exn + finding list \<Rightarrow> finding list" where
  "extend_with findings r = (case r of Inl e \<Rightarrow> findings | Inr found \<Rightarrow> findings @ found)"

definition check_vulnerabilities ::
  "(nat \<Rightarrow> bool) \<Rightarrow> network \<Rightarrow> request list \<Rightarrow> checker \<Rightarrow> (exn + checker) \<times> request list" where
  "check_vulnerabilities nd net sent self =
     (case query_osv_for_system net sent self of
        (r1, sent1) \<Rightarrow>
          (case query_osv_for_submodules net sent1 self of
             (r2, sent2) \<Rightarrow>
               (case query_nvd_for_conan net sent2 self of
                  (r3, sent3) \<Rightarrow>
                    (case enrich_osv_with_nvd nd net sent3
                            (extend_with (extend_with (extend_with [] r1) r2) r3) of
                       (Inl e, sent4) \<Rightarrow> (Inl e, sent4)
                     | (Inr findings, sent4) \<Rightarrow>
                         (Inr (self\<lparr>vulnerabilities := dedupe_findings findings\<rparr>), sent4)))))"

text \<open>
  The counting loop of \<^verbatim>\<open>_generate_report\<close> over \<^verbatim>\<open>self.vulnerabilities\<close>, with its four
  counters.
\<close>

fun count_loop :: "finding list \<Rightarrow> nat \<times> nat \<times> nat \<times> nat \<Rightarrow> nat \<times> nat \<times> nat \<times> nat" where
  "count_loop [] counters = counters"
| "count_loop (v # vs) (crit, high, med, low) =
     (let s = severity_of v
      in if s = ''CRITICAL'' then count_loop vs (crit + 1, high, med, low)
         else if s = ''HIGH'' then count_loop vs (crit, high + 1, med, low)
         else if s = ''MEDIUM'' then count_loop vs (crit, high, med + 1, low)
         else if s = ''LOW'' then count_loop vs (crit, high, med, low + 1)
         else count_loop vs (crit, high, med, low))"

record summary =
  total_dependencies :: nat
  vulnerabilities_found :: nat
  critical_count :: nat
  high_count :: nat
  medium_count :: nat
  low_count :: nat

text \<open>
  The report.  Its scan date and its recommendations are left out: they come from the
  clock and from files of the project, and no call of the network is made for them.
\<close>

record report =
  rep_summary :: summary
  rep_dependencies :: inventory
  rep_vulnerabilities :: "finding list"

definition generate_report :: "checker \<Rightarrow> report" where
  "generate_report self =
     (case count_loop (vulnerabilities self) (0, 0, 0, 0) of
        (crit, high, med, low) \<Rightarrow>
          \<lparr>rep_summary =
             \<lparr>total_dependencies =
                length (conan (dependencies self)) + length (system (dependencies self))
                + length (submodules (dependencies self)) + length (cmake (dependencies self))
                + length (system_by_stage (dependencies self)),
              vulnerabilities_found = length (vulnerabilities self),
              critical_count = crit,
              high_count = high,
              medium_count = med,
              low_count = low\<rparr>,
           rep_dependencies = dependencies self,
           rep_vulnerabilities = vulnerabilities self\<rparr>)"

text \<open>
  \<^verbatim>\<open>run_security_check\<close>, from the collected inventory on: the queries, the enrichment,
  the deduplication and the report, or the exception of the enrichment.
\<close>

definition run_security_check ::
  "(nat \<Rightarrow> bool) \<Rightarrow> network \<Rightarrow> request list \<Rightarrow> checker \<Rightarrow> (exn + report) \<times> request list" where
  "run_security_check nd net sent self =
     (case check_vulnerabilities nd net sent self of
        (Inl e, sent') \<Rightarrow> (Inl e, sent')
      | (Inr self', sent') \<Rightarrow> (Inr (generate_report self'), sent'))"
section \<open>Auxiliary definitions for the proofs\<close>

text \<open>What the loop appends to \<open>out\<close>, as a function of \<open>seen\<close> alone.\<close>

fun fresh :: "identity_key set \<Rightarrow> finding list \<Rightarrow> finding list" where
  "fresh seen [] = []"
| "fresh seen (it # items) =
     (if finding_key it \<in> seen then fresh seen items
      else it # fresh (insert (finding_key it) seen) items)"


text \<open>A finding with every key empty, for the examples.\<close>

definition empty_finding :: "string \<Rightarrow> finding" where
  "empty_finding src =
     \<lparr>f_source = src, f_id = None, f_package = None, f_ecosystem = None, f_version = None,
      f_summary = None, f_severity = None, f_references = [], f_aliases = [],
      f_affected = [], f_cvss = Missing\<rparr>"


text \<open>An inventory without dependencies, for the examples.\<close>

definition empty_inventory :: inventory where
  "empty_inventory = \<lparr>conan = [], system = [], submodules = [], cmake = [], system_by_stage = []\<rparr>"


text \<open>A severity entry with the given \<^verbatim>\<open>severity\<close> value, and an advisory with the given severity list.\<close>

definition severity_entry_of :: "string option \<Rightarrow> severity_entry" where
  "severity_entry_of s = \<lparr>sv_type = None, sv_score = None, sv_severity = s\<rparr>"

definition vuln_with_severity :: "severity_entry list \<Rightarrow> osv_vuln" where
  "vuln_with_severity svs =
     \<lparr>v_id = None, v_summary = None, v_severity = svs, v_references = [],
      v_aliases = [], v_affected = []\<rparr>"


text \<open>The events of a range are a missing key or a non-empty list.\<close>

definition events_well_formed :: "osv_range \<Rightarrow> bool" where
  "events_well_formed r =
     (case r_events r of Missing \<Rightarrow> True | Null \<Rightarrow> False | Present evs \<Rightarrow> evs \<noteq> [])"

definition event_of :: "string option \<Rightarrow> string option \<Rightarrow> event" where
  "event_of fixed_value limit_value =
     \<lparr>ev_introduced = None, ev_fixed = fixed_value, ev_last_affected = None,
      ev_limit = limit_value\<rparr>"


text \<open>A network that answers every request with the given response.\<close>

definition constant_network :: "response \<Rightarrow> network" where
  "constant_network r = (\<lambda>sent req. Some r)"


text \<open>A network every call of which raises.\<close>

definition failing_network :: network where
  "failing_network = (\<lambda>sent req. None)"


text \<open>
  An inventory with one platform package and one pinned commit, and a checker over it.
\<close>

definition example_inventory :: inventory where
  "example_inventory =
     \<lparr>conan = [],
      system = [(''zlib1g'', \<lparr>d_version = Some ''1:1.2.13-1'', d_commit = None\<rparr>)],
      submodules = [(''third_party/lib'', \<lparr>d_version = None, d_commit = Some ''+0a1b2c3d''\<rparr>)],
      cmake = [],
      system_by_stage = []\<rparr>"

definition example_checker :: "bool \<Rightarrow> checker" where
  "example_checker off =
     \<lparr>offline = off, ecosystem = Some ''Debian'', dependencies = example_inventory,
      vulnerabilities = []\<rparr>"


text \<open>The decimal digits of ASCII, as a class of code points.\<close>

definition ascii_digit :: "nat \<Rightarrow> bool" where
  "ascii_digit n = (48 \<le> n \<and> n \<le> 57)"

section \<open>Notions used to state the properties\<close>

text \<open>
  The aggregate as the claim words it: the label of the highest rank among the labels of
  the findings, under UNKNOWN(-1) < LOW(0) < MEDIUM(1) < HIGH(2) < CRITICAL(3), and
  UNKNOWN for no finding.
\<close>

definition spec_rank :: "string \<Rightarrow> int" where
  "spec_rank label =
     (if label = ''LOW'' then 0 else if label = ''MEDIUM'' then 1
      else if label = ''HIGH'' then 2 else if label = ''CRITICAL'' then 3 else - 1)"

fun spec_max_rank :: "string list \<Rightarrow> int" where
  "spec_max_rank [] = - 1"
| "spec_max_rank (label # labels) = max (spec_rank label) (spec_max_rank labels)"

definition spec_label_of_rank :: "int \<Rightarrow> string" where
  "spec_label_of_rank r =
     (if r = 0 then ''LOW'' else if r = 1 then ''MEDIUM''
      else if r = 2 then ''HIGH'' else if r = 3 then ''CRITICAL'' else ''UNKNOWN'')"

definition spec_aggregate :: "string list \<Rightarrow> string" where
  "spec_aggregate labels = spec_label_of_rank (spec_max_rank labels)"

text \<open>
  The severity of an emitted finding as the claim words it: the value of the first entry
  of the severity list that provides one.
\<close>

definition spec_first_severity :: "severity_entry list \<Rightarrow> string option" where
  "spec_first_severity svs =
     (case filter (\<lambda>sv. truthy (sv_severity sv)) svs of
        [] \<Rightarrow> None
      | sv # _ \<Rightarrow> sv_severity sv)"

text \<open>The value of the last entry that provides one.\<close>

definition last_provided_severity :: "severity_entry list \<Rightarrow> string option" where
  "last_provided_severity svs =
     (case filter (\<lambda>sv. truthy (sv_severity sv)) svs of
        [] \<Rightarrow> None
      | sv # providing \<Rightarrow> sv_severity (last (sv # providing)))"


text \<open>The ranges of a finding, and what one range contributes.\<close>

definition all_ranges :: "finding \<Rightarrow> osv_range list" where
  "all_ranges v = concat (map a_ranges (f_affected v))"

definition range_fixed_values :: "osv_range \<Rightarrow> string set" where
  "range_fixed_values r =
     set (map (\<lambda>ev. or_empty (ev_fixed ev))
            (filter (\<lambda>ev. truthy (ev_fixed ev)) (events_or_empty r)))"

definition range_last_limit :: "osv_range \<Rightarrow> string set" where
  "range_last_limit r =
     (case events_or_empty r of
        [] \<Rightarrow> {}
      | ev # evs \<Rightarrow>
          if truthy (ev_limit (last (ev # evs))) then {or_empty (ev_limit (last (ev # evs)))}
          else {})"

text \<open>
  The candidate set as the claim words it: the limit of the last event counts only for
  a range without a fixed value.
\<close>

definition spec_fixed_versions :: "finding \<Rightarrow> string list" where
  "spec_fixed_versions v =
     sorted_list_of_set
       (\<Union>r\<in>set (all_ranges v).
          range_fixed_values r
          \<union> (if range_fixed_values r = {} then range_last_limit r else {}))"

text \<open>
  The findings the enrichment pass examines: those of the batch advisory service
  without a severity.
\<close>

definition examined :: "finding \<Rightarrow> bool" where
  "examined f = (f_source f = ''OSV'' \<and> \<not> truthy (f_severity f))"

text \<open>Every alias of the finding is a string, and its id is a string or \<^verbatim>\<open>null\<close>.\<close>

definition is_string :: "json_scalar option \<Rightarrow> bool" where
  "is_string a = (case a of Some (JStr s) \<Rightarrow> True | _ \<Rightarrow> False)"

definition strings_only :: "finding \<Rightarrow> bool" where
  "strings_only f = (list_all is_string (f_aliases f) \<and> (f_id f = None \<or> is_string (f_id f)))"

text \<open>
  The first entry of the first non-empty list among \<^verbatim>\<open>cvssMetricV31\<close> and
  \<^verbatim>\<open>cvssMetricV30\<close> of the first vulnerability of a response, if there is one.
\<close>

definition metric_entry :: "nvd_response \<Rightarrow> cvss_metric option" where
  "metric_entry data =
     (case nvd_vulnerabilities data of
        [] \<Rightarrow> None
      | item # _ \<Rightarrow>
          (case cvssMetricV31 (cve_metrics (item_cve item)) of
             m # _ \<Rightarrow> Some m
           | [] \<Rightarrow> (case cvssMetricV30 (cve_metrics (item_cve item)) of
                      m # _ \<Rightarrow> Some m
                    | [] \<Rightarrow> None)))"

text \<open>
  The outcome of the lookup for a finding from which a CVE identifier is recovered, when
  issued after the requests \<open>sent\<close>: \<open>None\<close> when the call raises, the response
  otherwise.
\<close>

definition lookup :: "(nat \<Rightarrow> bool) \<Rightarrow> network \<Rightarrow> request list \<Rightarrow> finding \<Rightarrow> nvd_response option" where
  "lookup nd net sent f =
     (case cve_ids nd f of
        Inr (cve # _) \<Rightarrow>
          (case net sent (NvdCveById cve) of
             Some (NvdCves data) \<Rightarrow> Some data
           | _ \<Rightarrow> None)
      | _ \<Rightarrow> None)"

text \<open>
  Metric data that is of use, as the claim words it: a \<^verbatim>\<open>cvssData\<close> object with a
  severity label or a base score.
\<close>

definition spec_usable_metric_data :: "nvd_response \<Rightarrow> bool" where
  "spec_usable_metric_data data =
     (case metric_entry data of
        None \<Rightarrow> False
      | Some m \<Rightarrow>
          (case cvssData m of
             None \<Rightarrow> False
           | Some c \<Rightarrow> truthy (baseSeverity c) \<or> baseScore c \<noteq> None))"
section \<open>Properties of deduplication\<close>

lemma dedupe_loop_fresh: "dedupe_loop seen out items = out @ fresh seen items"
  by (induction items arbitrary: seen out) simp_all

lemma dedupe_findings_fresh: "dedupe_findings items = fresh {} items"
  by (simp add: dedupe_findings_def dedupe_loop_fresh)

lemma fresh_keys_notin: "x \<in> set (fresh seen items) \<Longrightarrow> finding_key x \<notin> seen"
  by (induction items arbitrary: seen) (auto split: if_splits)

lemma fresh_distinct: "distinct (map finding_key (fresh seen items))"
proof (induction items arbitrary: seen)
  case Nil
  show ?case by simp
next
  case (Cons it items)
  have "finding_key it \<notin> finding_key ` set (fresh (insert (finding_key it) seen) items)"
    by (auto dest: fresh_keys_notin)
  with Cons show ?case by simp
qed

lemma fresh_key_set:
  "finding_key ` set (fresh seen items) = finding_key ` set items - seen"
  by (induction items arbitrary: seen) auto

lemma fresh_nths:
  "fresh seen items =
     nths items {i. i < length items \<and>
                    finding_key (items ! i) \<notin> seen \<union> finding_key ` set (take i items)}"
proof (induction items arbitrary: seen)
  case Nil
  show ?case by simp
next
  case (Cons it items)
  let ?k = "finding_key it"
  let ?A = "{i. i < length (it # items) \<and>
                finding_key ((it # items) ! i) \<notin> seen \<union> finding_key ` set (take i (it # items))}"
  let ?B = "{i. i < length items \<and>
                finding_key (items ! i) \<notin> insert ?k seen \<union> finding_key ` set (take i items)}"
  have shift: "{j. Suc j \<in> ?A} = ?B"
    by auto
  have head: "0 \<in> ?A \<longleftrightarrow> ?k \<notin> seen"
    by simp
  have tail: "fresh (insert ?k seen) items = nths items ?B"
    by (rule Cons.IH)
  show ?case
  proof (cases "?k \<in> seen")
    case True
    then have "insert ?k seen = seen" by auto
    with tail have "fresh seen items = nths items ?B" by simp
    moreover from True head have "nths (it # items) ?A = nths items {j. Suc j \<in> ?A}"
      unfolding nths_Cons by simp
    ultimately show ?thesis using True shift by simp
  next
    case False
    with head have "nths (it # items) ?A = it # nths items {j. Suc j \<in> ?A}"
      unfolding nths_Cons by simp
    with False tail shift show ?thesis by simp
  qed
qed

lemma fresh_id: "distinct (map finding_key items) \<Longrightarrow> finding_key ` set items \<inter> seen = {} \<Longrightarrow>
  fresh seen items = items"
  by (induction items arbitrary: seen) auto

text \<open>
  Claim C2.  \<^verbatim>\<open>_dedupe_findings\<close> returns exactly the findings that stand at a position
  where their identity key occurs for the first time, unchanged and in their original
  order; a finding whose key occurred at an earlier position is dropped whatever its
  other fields are.  The identity key is the id when it is non-empty (for an id that is
  not a string: when it is a number other than zero, or \<^verbatim>\<open>True\<close>, which is the key 1) and
  the tuple (source, package, version, summary) otherwise.  No two findings of the
  output share a key, and every key of the input survives.
\<close>

theorem dedupe_keeps_first_occurrences:
  "dedupe_findings items =
     nths items {i. i < length items \<and>
                    finding_key (items ! i) \<notin> finding_key ` set (take i items)}
   \<and> distinct (map finding_key (dedupe_findings items))
   \<and> finding_key ` set (dedupe_findings items) = finding_key ` set items
   \<and> finding_key it =
       (case f_id it of
          None \<Rightarrow> CompositeKey (f_source it) (f_package it) (f_version it) (f_summary it)
        | Some (JStr s) \<Rightarrow>
            if s \<noteq> [] then IdKey (StrId s)
            else CompositeKey (f_source it) (f_package it) (f_version it) (f_summary it)
        | Some (JInt n) \<Rightarrow>
            if n \<noteq> 0 then IdKey (NumId (of_int n))
            else CompositeKey (f_source it) (f_package it) (f_version it) (f_summary it)
        | Some (JFloat x) \<Rightarrow>
            if x \<noteq> 0 then IdKey (NumId x)
            else CompositeKey (f_source it) (f_package it) (f_version it) (f_summary it)
        | Some (JBool b) \<Rightarrow>
            if b then IdKey (NumId 1)
            else CompositeKey (f_source it) (f_package it) (f_version it) (f_summary it))"
proof -
  have "dedupe_findings items =
     nths items {i. i < length items \<and>
                    finding_key (items ! i) \<notin> finding_key ` set (take i items)}"
    using fresh_nths [of "{}" items] by (simp add: dedupe_findings_fresh)
  moreover have "distinct (map finding_key (dedupe_findings items))"
    by (simp add: dedupe_findings_fresh fresh_distinct)
  moreover have "finding_key ` set (dedupe_findings items) = finding_key ` set items"
    by (simp add: dedupe_findings_fresh fresh_key_set)
  moreover have "finding_key it =
       (case f_id it of
          None \<Rightarrow> CompositeKey (f_source it) (f_package it) (f_version it) (f_summary it)
        | Some (JStr s) \<Rightarrow>
            if s \<noteq> [] then IdKey (StrId s)
            else CompositeKey (f_source it) (f_package it) (f_version it) (f_summary it)
        | Some (JInt n) \<Rightarrow>
            if n \<noteq> 0 then IdKey (NumId (of_int n))
            else CompositeKey (f_source it) (f_package it) (f_version it) (f_summary it)
        | Some (JFloat x) \<Rightarrow>
            if x \<noteq> 0 then IdKey (NumId x)
            else CompositeKey (f_source it) (f_package it) (f_version it) (f_summary it)
        | Some (JBool b) \<Rightarrow>
            if b then IdKey (NumId 1)
            else CompositeKey (f_source it) (f_package it) (f_version it) (f_summary it))"
    by (simp add: finding_key_def split: option.splits json_scalar.splits)
  ultimately show ?thesis by blast
qed

text \<open>
  Claim C3.  Deduplication is idempotent: a second pass over the output of
  \<^verbatim>\<open>_dedupe_findings\<close> returns it unchanged.
\<close>

theorem dedupe_idempotent:
  "dedupe_findings (dedupe_findings items) = dedupe_findings items"
proof -
  have "distinct (map finding_key (fresh {} items))"
    by (rule fresh_distinct)
  then have "fresh {} (fresh {} items) = fresh {} items"
    by (rule fresh_id) simp
  then show ?thesis by (simp add: dedupe_findings_fresh)
qed


text \<open>
  Two findings with the same id and different summaries: the first is kept and the
  second is dropped with its additional detail; a finding without an id is kept under
  its composite key.
\<close>

lemma dedupe_example:
  "dedupe_findings
     [(empty_finding ''OSV'')\<lparr>f_id := Some (JStr (codes ''CVE-2023-1255'')),
         f_summary := Some ''first''\<rparr>,
      (empty_finding ''NVD'')\<lparr>f_id := Some (JStr (codes ''CVE-2023-1255'')),
         f_summary := Some ''second'',
         f_references := [Some ''https://nvd.nist.gov/vuln/detail/CVE-2023-1255'']\<rparr>,
      (empty_finding ''OSV'')\<lparr>f_id := Some (JStr []), f_package := Some ''zlib''\<rparr>,
      (empty_finding ''OSV'')\<lparr>f_package := Some ''zlib'',
         f_aliases := [Some (JStr (codes ''CVE-2022-37434''))]\<rparr>]
   = [(empty_finding ''OSV'')\<lparr>f_id := Some (JStr (codes ''CVE-2023-1255'')),
         f_summary := Some ''first''\<rparr>,
      (empty_finding ''OSV'')\<lparr>f_id := Some (JStr []), f_package := Some ''zlib''\<rparr>]"
  by (simp add: dedupe_findings_def finding_key_def empty_finding_def codes_def)
section \<open>Properties of the normalisation\<close>

lemma severity_loop_append:
  "severity_loop sev (svs @ [sv]) = py_or (sv_severity sv) (severity_loop sev svs)"
  by (induction svs arbitrary: sev) simp_all

lemma severity_loop_last:
  "severity_loop sev svs =
     (case filter (\<lambda>sv. truthy (sv_severity sv)) svs of
        [] \<Rightarrow> sev
      | sv # providing \<Rightarrow> sv_severity (last (sv # providing)))"
proof (induction svs rule: rev_induct)
  case Nil
  show ?case by simp
next
  case (snoc sv svs)
  show ?case
    by (cases "filter (\<lambda>sv. truthy (sv_severity sv)) svs")
       (simp_all add: severity_loop_append snoc py_or_def)
qed

lemma severity_loop_None: "severity_loop None svs = last_provided_severity svs"
  by (simp add: severity_loop_last last_provided_severity_def)

lemma vulns_loop_map: "vulns_loop attr vs findings = findings @ map (osv_finding attr) vs"
  by (induction vs arbitrary: findings) simp_all

lemma osv_finding_severity: "f_severity (osv_finding attr v) = severity_loop None (v_severity v)"
  by (cases attr) (simp add: osv_finding_def)

lemma results_loop_severity:
  "map f_severity (results_loop meta idx results findings) =
     map f_severity findings
     @ map (\<lambda>v. severity_loop None (v_severity v)) (concat (map res_vulns results))"
  by (induction results arbitrary: idx findings)
     (simp_all add: vulns_loop_map osv_finding_severity comp_def)

text \<open>
  Claim C1 as stated fails: for the severity list \<^verbatim>\<open>[{"severity": "HIGH"}, {"severity": "LOW"}]\<close>
  the emitted finding has severity \<^verbatim>\<open>LOW\<close>, the value of the last entry, where the
  first entry that provides one gives \<^verbatim>\<open>HIGH\<close>.
\<close>

theorem osv_severity_counterexample:
  "map f_severity (osv_results_to_findings
      \<lparr>osv_results = [\<lparr>res_package = None, res_version = None,
          res_vulns = [vuln_with_severity
             [severity_entry_of (Some ''HIGH''), severity_entry_of (Some ''LOW'')]]\<rparr>]\<rparr> None)
     = [Some ''LOW'']
   \<and> map (\<lambda>v. spec_first_severity (v_severity v))
        [vuln_with_severity [severity_entry_of (Some ''HIGH''), severity_entry_of (Some ''LOW'')]]
     = [Some ''HIGH'']"
  by (simp add: osv_results_to_findings_def vulns_loop_map osv_finding_severity
        vuln_with_severity_def severity_entry_of_def py_or_def spec_first_severity_def)

text \<open>
  Claim C1, as amended.  \<^verbatim>\<open>_osv_results_to_findings\<close> emits one finding for each
  advisory of each result, in order, and the severity of each is the value of the last
  entry of the advisory's severity list that provides one (\<^verbatim>\<open>None\<close> when no entry
  does): the last match wins, and the entries before it do not affect the result.
\<close>

theorem osv_severity_last_match:
  "map f_severity (osv_results_to_findings osv_batch_resp meta) =
     map (\<lambda>v. last_provided_severity (v_severity v))
       (concat (map res_vulns (osv_results osv_batch_resp)))
   \<and> (truthy (sv_severity sv) \<and> (\<forall>later\<in>set after. \<not> truthy (sv_severity later)) \<longrightarrow>
        last_provided_severity (before @ sv # after) = sv_severity sv)"
proof -
  have "map f_severity (osv_results_to_findings osv_batch_resp meta) =
     map (\<lambda>v. last_provided_severity (v_severity v))
       (concat (map res_vulns (osv_results osv_batch_resp)))"
    by (simp add: osv_results_to_findings_def results_loop_severity severity_loop_None)
  moreover have "last_provided_severity (before @ sv # after) = sv_severity sv"
    if "truthy (sv_severity sv)" "\<forall>later\<in>set after. \<not> truthy (sv_severity later)"
  proof -
    from that(2) have "filter (\<lambda>sv. truthy (sv_severity sv)) after = []"
      by (simp add: filter_empty_conv)
    with that(1) show ?thesis
      by (cases "filter (\<lambda>sv. truthy (sv_severity sv)) before")
         (simp_all add: last_provided_severity_def)
  qed
  ultimately show ?thesis by blast
qed

theorem osv_severity_last_match_witness:
  "map f_severity (osv_results_to_findings
      \<lparr>osv_results = [\<lparr>res_package = None, res_version = None,
          res_vulns = [vuln_with_severity
             [severity_entry_of (Some ''HIGH''), severity_entry_of (Some ''LOW''),
              severity_entry_of None]]\<rparr>]\<rparr> None)
     = [Some ''LOW'']
   \<and> last_provided_severity
        ([severity_entry_of (Some ''HIGH'')] @ severity_entry_of (Some ''LOW'') # [severity_entry_of None])
     = Some ''LOW''"
proof -
  let ?resp = "\<lparr>osv_results = [\<lparr>res_package = None, res_version = None,
          res_vulns = [vuln_with_severity
             [severity_entry_of (Some ''HIGH''), severity_entry_of (Some ''LOW''),
              severity_entry_of None]]\<rparr>]\<rparr>"
  note inst = osv_severity_last_match [of ?resp None "severity_entry_of (Some ''LOW'')"
      "[severity_entry_of None]" "[severity_entry_of (Some ''HIGH'')]"]
  have hyp: "truthy (sv_severity (severity_entry_of (Some ''LOW'')))
     \<and> (\<forall>later\<in>set [severity_entry_of None]. \<not> truthy (sv_severity later))"
    by (simp add: severity_entry_of_def)
  from inst hyp have 2: "last_provided_severity
        ([severity_entry_of (Some ''HIGH'')] @ severity_entry_of (Some ''LOW'') # [severity_entry_of None])
     = Some ''LOW''"
    by (simp add: severity_entry_of_def)
  from inst have "map f_severity (osv_results_to_findings ?resp None) =
     map (\<lambda>v. last_provided_severity (v_severity v)) (concat (map res_vulns (osv_results ?resp)))"
    by blast
  with 2 have 1: "map f_severity (osv_results_to_findings ?resp None) = [Some ''LOW'']"
    by (simp add: vuln_with_severity_def)
  from 1 2 show ?thesis by blast
qed

section \<open>Properties of the fixed versions\<close>

lemma events_loop_set:
  "events_loop evs fixed =
     fixed \<union> set (map (\<lambda>ev. or_empty (ev_fixed ev)) (filter (\<lambda>ev. truthy (ev_fixed ev)) evs))"
  by (induction evs arbitrary: fixed) auto

lemma last_event_limit:
  "events_well_formed r \<Longrightarrow>
   \<exists>lst. last_event r = Inr lst
     \<and> (if truthy (ev_limit lst) then {or_empty (ev_limit lst)} else {}) = range_last_limit r"
  by (cases "r_events r")
     (auto simp add: events_well_formed_def last_event_def range_last_limit_def
        events_or_empty_def split: list.splits)

lemma ranges_loop_set:
  "\<forall>r\<in>set rs. events_well_formed r \<Longrightarrow>
   ranges_loop rs fixed =
     Inr (fixed \<union> (\<Union>r\<in>set rs. range_fixed_values r \<union> range_last_limit r))"
proof (induction rs arbitrary: fixed)
  case Nil
  show ?case by simp
next
  case (Cons r rs)
  from Cons.prems have "events_well_formed r" by simp
  then obtain lst where lst: "last_event r = Inr lst"
    and lim: "(if truthy (ev_limit lst) then {or_empty (ev_limit lst)} else {}) = range_last_limit r"
    using last_event_limit by blast
  from Cons.prems have rest: "\<forall>r\<in>set rs. events_well_formed r" by simp
  show ?case
  proof (cases "truthy (ev_limit lst)")
    case True
    with lim have "range_last_limit r = {or_empty (ev_limit lst)}" by simp
    with True lst show ?thesis
      by (simp add: Let_def Cons.IH [OF rest] events_loop_set range_fixed_values_def Un_ac)
  next
    case False
    with lim have "range_last_limit r = {}" by simp
    with False lst show ?thesis
      by (simp add: Let_def Cons.IH [OF rest] events_loop_set range_fixed_values_def Un_ac)
  qed
qed

lemma affected_loop_set:
  "\<forall>r\<in>set (concat (map a_ranges affs)). events_well_formed r \<Longrightarrow>
   affected_loop affs fixed =
     Inr (fixed \<union> (\<Union>r\<in>set (concat (map a_ranges affs)).
                       range_fixed_values r \<union> range_last_limit r))"
proof (induction affs arbitrary: fixed)
  case Nil
  show ?case by simp
next
  case (Cons aff affs)
  from Cons.prems have here: "\<forall>r\<in>set (a_ranges aff). events_well_formed r"
    and rest: "\<forall>r\<in>set (concat (map a_ranges affs)). events_well_formed r"
    by simp_all
  show ?case
    by (simp add: ranges_loop_set [OF here] Cons.IH [OF rest] Un_assoc)
qed

lemma candidates_finite:
  "finite (\<Union>r\<in>set rs. range_fixed_values r \<union> range_last_limit r)"
  by (auto simp add: range_fixed_values_def range_last_limit_def split: list.splits)

text \<open>
  Claim C8 as stated fails: for a range whose events are \<^verbatim>\<open>[{"fixed": "1.0"}, {"limit": "2.0"}]\<close>
  the limit of the last event is a candidate although the range has a fixed value.
\<close>

theorem osv_fixed_versions_counterexample:
  "osv_fixed_versions ((empty_finding ''OSV'')\<lparr>f_affected :=
      [\<lparr>a_ranges = [\<lparr>r_events = Present
          [event_of (Some ''1.0'') None, event_of None (Some ''2.0'')]\<rparr>]\<rparr>]\<rparr>)
     = Inr [''1.0'', ''2.0'']
   \<and> spec_fixed_versions ((empty_finding ''OSV'')\<lparr>f_affected :=
      [\<lparr>a_ranges = [\<lparr>r_events = Present
          [event_of (Some ''1.0'') None, event_of None (Some ''2.0'')]\<rparr>]\<rparr>]\<rparr>)
     = [''1.0'']"
  by (simp add: osv_fixed_versions_def spec_fixed_versions_def all_ranges_def
        range_fixed_values_def range_last_limit_def events_or_empty_def last_event_def
        empty_finding_def event_of_def Let_def or_empty_def)

text \<open>
  Claim C8, as amended.  For every finding whose ranges each have a non-empty list of
  events or no \<^verbatim>\<open>events\<close> key, \<^verbatim>\<open>_osv_fixed_versions\<close> returns the candidate set made
  of every non-empty \<^verbatim>\<open>fixed\<close> value of every event and, for every range (with or
  without a fixed value), the non-empty \<^verbatim>\<open>limit\<close> value of its last event; the result
  lists this set without duplicates, sorted in the lexicographic order of strings.
\<close>

theorem osv_fixed_versions_candidates:
  "(\<forall>r\<in>set (all_ranges v). events_well_formed r) \<longrightarrow>
     osv_fixed_versions v =
       Inr (sorted_list_of_set
              (\<Union>r\<in>set (all_ranges v). range_fixed_values r \<union> range_last_limit r))
     \<and> (\<exists>versions. osv_fixed_versions v = Inr versions
           \<and> sorted versions \<and> distinct versions
           \<and> set versions
               = (\<Union>r\<in>set (all_ranges v). range_fixed_values r \<union> range_last_limit r))"
proof
  assume "\<forall>r\<in>set (all_ranges v). events_well_formed r"
  then have "affected_loop (f_affected v) {} =
      Inr ({} \<union> (\<Union>r\<in>set (all_ranges v). range_fixed_values r \<union> range_last_limit r))"
    unfolding all_ranges_def by (rule affected_loop_set)
  then have eq: "osv_fixed_versions v =
       Inr (sorted_list_of_set
              (\<Union>r\<in>set (all_ranges v). range_fixed_values r \<union> range_last_limit r))"
    by (simp add: osv_fixed_versions_def)
  have fin: "finite (\<Union>r\<in>set (all_ranges v). range_fixed_values r \<union> range_last_limit r)"
    by (rule candidates_finite)
  from eq fin show "osv_fixed_versions v =
       Inr (sorted_list_of_set
              (\<Union>r\<in>set (all_ranges v). range_fixed_values r \<union> range_last_limit r))
     \<and> (\<exists>versions. osv_fixed_versions v = Inr versions
           \<and> sorted versions \<and> distinct versions
           \<and> set versions
               = (\<Union>r\<in>set (all_ranges v). range_fixed_values r \<union> range_last_limit r))"
    by simp
qed

theorem osv_fixed_versions_candidates_witness:
  "osv_fixed_versions ((empty_finding ''OSV'')\<lparr>f_affected :=
      [\<lparr>a_ranges = [\<lparr>r_events = Present
          [event_of (Some ''1.2.9'') None, event_of (Some ''1.2.13'') (Some ''2.0'')]\<rparr>,
                    \<lparr>r_events = Missing\<rparr>]\<rparr>]\<rparr>)
     = Inr [''1.2.13'', ''1.2.9'', ''2.0'']"
proof -
  let ?v = "(empty_finding ''OSV'')\<lparr>f_affected :=
      [\<lparr>a_ranges = [\<lparr>r_events = Present
          [event_of (Some ''1.2.9'') None, event_of (Some ''1.2.13'') (Some ''2.0'')]\<rparr>,
                    \<lparr>r_events = Missing\<rparr>]\<rparr>]\<rparr>"
  have hyp: "\<forall>r\<in>set (all_ranges ?v). events_well_formed r"
    by (simp add: all_ranges_def empty_finding_def events_well_formed_def)
  have "sorted_list_of_set
          (\<Union>r\<in>set (all_ranges ?v). range_fixed_values r \<union> range_last_limit r)
        = [''1.2.13'', ''1.2.9'', ''2.0'']"
    by code_simp
  with osv_fixed_versions_candidates [of ?v] hyp show ?thesis
    by (simp only:)
qed

section \<open>Properties of the identifier mapping\<close>

lemma split_on_no_sep: "sep \<notin> set p \<Longrightarrow> split_on sep p = [p]"
  by (induction p) auto

lemma split_on_append_sep:
  "sep \<notin> set p \<Longrightarrow> split_on sep (p @ sep # rest) = p # split_on sep rest"
  by (induction p) auto

lemma split_on_join:
  "parts \<noteq> [] \<Longrightarrow> \<forall>p\<in>set parts. sep \<notin> set p \<Longrightarrow> split_on sep (join sep parts) = parts"
proof (induction sep parts rule: join.induct)
  case (1 sep)
  then show ?case by simp
next
  case (2 sep part)
  then show ?case by (simp add: split_on_no_sep)
next
  case (3 sep part next_part parts)
  then show ?case by (simp add: split_on_append_sep)
qed

lemma split_on_parts_no_sep: "p \<in> set (split_on sep s) \<Longrightarrow> sep \<notin> set p"
  by (induction s arbitrary: p) (auto split: if_splits list.splits)

lemma pad_and_inject_length: "length (pad_and_inject best version) = 13"
  by (simp add: pad_and_inject_def)

lemma pad_and_inject_version:
  "pad_and_inject best version ! 5 = (if version = [] then ''*'' else version)"
  by (simp add: pad_and_inject_def)

lemma pad_and_inject_other:
  "i < 13 \<Longrightarrow> i \<noteq> 5 \<Longrightarrow>
   pad_and_inject best version ! i = (if i < length best then best ! i else ''*'')"
  by (simp add: pad_and_inject_def nth_append)

lemma pad_and_inject_no_sep:
  assumes "\<forall>p\<in>set best. CHR '':'' \<notin> set p" and "CHR '':'' \<notin> set version"
  shows "\<forall>p\<in>set (pad_and_inject best version). CHR '':'' \<notin> set p"
proof
  fix p
  let ?v = "if version = [] then ''*'' else version"
  let ?padded = "best @ replicate (13 - length best) ''*''"
  assume "p \<in> set (pad_and_inject best version)"
  then have mem: "p \<in> set (?padded[5 := ?v])"
    unfolding pad_and_inject_def by (rule in_set_takeD)
  have "set (?padded[5 := ?v]) \<subseteq> insert ?v (set ?padded)"
    by (rule set_update_subset_insert)
  from this mem have "p \<in> insert ?v (set ?padded)"
    by (rule subsetD)
  then consider (version) "p = ?v" | (best) "p \<in> set best" | (star) "p = ''*''"
    by auto
  then show "CHR '':'' \<notin> set p"
  proof cases
    case version
    with assms(2) show ?thesis by (cases "version = []") simp_all
  next
    case best
    with assms(1) show ?thesis by blast
  next
    case star
    then show ?thesis by simp
  qed
qed

lemma best_loop_Some:
  "best_loop name_l candidates = Some best \<Longrightarrow>
   \<exists>item\<in>set candidates. \<exists>cpe23. cpeName item = Some cpe23
      \<and> best = split_on CHR '':'' cpe23"
proof (induction candidates)
  case Nil
  then show ?case by simp
next
  case (Cons item candidates)
  show ?case
  proof (cases "cpeName item")
    case None
    with Cons show ?thesis by simp
  next
    case (Some cpe23)
    with Cons show ?thesis
      by (auto simp add: Let_def or_empty_def split: if_splits)
  qed
qed

lemma guess_cpe_Some:
  "fst (guess_cpe_for_conan net sent name version) = Some s \<Longrightarrow>
   \<exists>candidates best. net sent (NvdCpeSearch name) = Some (CpeProducts candidates)
      \<and> best_loop (lower name) candidates = Some best
      \<and> s = join CHR '':'' (pad_and_inject best version)"
  by (auto simp add: guess_cpe_for_conan_def find_cpe_candidates_def
        split: option.splits response.splits)

text \<open>
  The padding and the cut do give 13 fields as long as the version has no colon of its
  own: for such a version every result of
  \<^verbatim>\<open>guess_cpe_for_conan\<close> other than \<^verbatim>\<open>None\<close> has exactly 13 colon-delimited fields;
  the field at index 5 is the version, or \<^verbatim>\<open>*\<close> for the empty version; and every
  other field is the field of a candidate of the keyword search at the same index, or
  \<^verbatim>\<open>*\<close> beyond the candidate's fields.
\<close>

lemma guess_cpe_colon_free_version:
  "fst (guess_cpe_for_conan net sent name version) = Some s \<and> CHR '':'' \<notin> set version \<longrightarrow>
     length (split_on CHR '':'' s) = 13
     \<and> split_on CHR '':'' s ! 5 = (if version = [] then ''*'' else version)
     \<and> (\<exists>candidates item cpe23.
           net sent (NvdCpeSearch name) = Some (CpeProducts candidates)
           \<and> item \<in> set candidates \<and> cpeName item = Some cpe23
           \<and> (\<forall>i<13. i \<noteq> 5 \<longrightarrow>
                 split_on CHR '':'' s ! i =
                   (if i < length (split_on CHR '':'' cpe23)
                    then split_on CHR '':'' cpe23 ! i else ''*'')))"
proof
  assume asm: "fst (guess_cpe_for_conan net sent name version) = Some s
     \<and> CHR '':'' \<notin> set version"
  then obtain candidates best where
    resp: "net sent (NvdCpeSearch name) = Some (CpeProducts candidates)"
    and best: "best_loop (lower name) candidates = Some best"
    and s: "s = join CHR '':'' (pad_and_inject best version)"
    using guess_cpe_Some by blast
  from best obtain item cpe23 where
    item: "item \<in> set candidates" "cpeName item = Some cpe23"
    and parts: "best = split_on CHR '':'' cpe23"
    using best_loop_Some by blast
  have "\<forall>p\<in>set best. CHR '':'' \<notin> set p"
    unfolding parts by (auto dest: split_on_parts_no_sep)
  moreover from asm have "CHR '':'' \<notin> set version" ..
  ultimately have nosep: "\<forall>p\<in>set (pad_and_inject best version). CHR '':'' \<notin> set p"
    by (rule pad_and_inject_no_sep)
  have "pad_and_inject best version \<noteq> []"
    using pad_and_inject_length [of best version] by auto
  from this nosep have fields: "split_on CHR '':'' s = pad_and_inject best version"
    unfolding s by (rule split_on_join)
  have 1: "length (split_on CHR '':'' s) = 13"
    by (simp add: fields pad_and_inject_length)
  have 2: "split_on CHR '':'' s ! 5 = (if version = [] then ''*'' else version)"
    by (simp only: fields pad_and_inject_version)
  have 3: "\<forall>i<13. i \<noteq> 5 \<longrightarrow>
             split_on CHR '':'' s ! i =
               (if i < length (split_on CHR '':'' cpe23)
                then split_on CHR '':'' cpe23 ! i else ''*'')"
    by (simp add: fields pad_and_inject_other parts)
  from 1 2 3 resp item show "length (split_on CHR '':'' s) = 13
     \<and> split_on CHR '':'' s ! 5 = (if version = [] then ''*'' else version)
     \<and> (\<exists>candidates item cpe23.
           net sent (NvdCpeSearch name) = Some (CpeProducts candidates)
           \<and> item \<in> set candidates \<and> cpeName item = Some cpe23
           \<and> (\<forall>i<13. i \<noteq> 5 \<longrightarrow>
                 split_on CHR '':'' s ! i =
                   (if i < length (split_on CHR '':'' cpe23)
                    then split_on CHR '':'' cpe23 ! i else ''*'')))"
    by blast
qed

text \<open>
  Claim C6 is what the comment of the code promises (13 fields, the version in field 5),
  and the code misses it for a version that contains a colon, which it joins unescaped:
  with the candidate \<^verbatim>\<open>cpe:2.3:a:zlib:zlib:1.2.11:*:*:*:*:*:*:*\<close> and the version
  \<^verbatim>\<open>1:1.2.13\<close> the result has 14 colon-delimited fields, and the field at index 5 is
  \<^verbatim>\<open>1\<close>.
\<close>

theorem guess_cpe_colon_in_version:
  "fst (guess_cpe_for_conan
         (constant_network
            (CpeProducts [\<lparr>cpeName = Some ''cpe:2.3:a:zlib:zlib:1.2.11:*:*:*:*:*:*:*''\<rparr>]))
         [] ''zlib'' ''1:1.2.13'')
     = Some ''cpe:2.3:a:zlib:zlib:1:1.2.13:*:*:*:*:*:*:*''
   \<and> length (split_on CHR '':'' ''cpe:2.3:a:zlib:zlib:1:1.2.13:*:*:*:*:*:*:*'') = 14
   \<and> split_on CHR '':'' ''cpe:2.3:a:zlib:zlib:1:1.2.13:*:*:*:*:*:*:*'' ! 5 = ''1''"
  by code_simp

section \<open>Properties of the cross-enrichment\<close>

lemma cve_aliases_strings:
  "list_all is_string aliases \<Longrightarrow> \<exists>ids. cve_aliases aliases = Inr ids"
proof (induction aliases)
  case Nil
  then show ?case by simp
next
  case (Cons a aliases)
  then obtain s where a: "a = Some (JStr s)"
    by (auto simp add: is_string_def split: option.splits json_scalar.splits)
  from Cons obtain ids where "cve_aliases aliases = Inr ids"
    by auto
  with a show ?case by simp
qed

lemma id_or_empty_string:
  "f_id f = None \<or> is_string (f_id f) \<Longrightarrow> \<exists>fid. id_or_empty (f_id f) = JStr fid"
  by (auto simp add: id_or_empty_def is_string_def split: option.splits json_scalar.splits)

lemma cve_ids_strings: "strings_only f \<Longrightarrow> \<exists>ids. cve_ids nd f = Inr ids"
proof -
  assume typed: "strings_only f"
  then obtain from_aliases where al: "cve_aliases (f_aliases f) = Inr from_aliases"
    using cve_aliases_strings [of "f_aliases f"] by (auto simp add: strings_only_def)
  from typed obtain fid where fid: "id_or_empty (f_id f) = JStr fid"
    using id_or_empty_string [of f] by (auto simp add: strings_only_def)
  show ?thesis
    by (simp add: cve_ids_def al fid split: option.splits)
qed

lemma enrich_one_returns:
  assumes "examined f \<longrightarrow> strings_only f"
  shows "\<exists>f' sent'. enrich_one nd net sent f = (Inr f', sent')"
proof (cases "examined f")
  case False
  then show ?thesis by (auto simp add: enrich_one_def examined_def)
next
  case True
  with assms obtain ids where "cve_ids nd f = Inr ids"
    using cve_ids_strings by blast
  then show ?thesis
    by (cases ids; cases "cve_by_id net sent (hd ids)"; cases "fst (cve_by_id net sent (hd ids))")
       (auto simp add: enrich_one_def)
qed

lemma enrich_returns:
  "\<forall>f\<in>set items. examined f \<longrightarrow> strings_only f \<Longrightarrow>
   \<exists>out sent'. enrich_osv_with_nvd nd net sent items = (Inr out, sent')"
proof (induction items arbitrary: sent)
  case Nil
  then show ?case by simp
next
  case (Cons f items)
  then have "examined f \<longrightarrow> strings_only f" by simp
  then obtain f' sent1 where one: "enrich_one nd net sent f = (Inr f', sent1)"
    using enrich_one_returns by blast
  from Cons obtain out sent2 where "enrich_osv_with_nvd nd net sent1 items = (Inr out, sent2)"
    by fastforce
  with one show ?case by simp
qed

lemma enrich_Cons_Inr:
  "enrich_osv_with_nvd nd net sent (f # items) = (Inr out, sent'') \<Longrightarrow>
   \<exists>f' sent' out'. enrich_one nd net sent f = (Inr f', sent')
      \<and> enrich_osv_with_nvd nd net sent' items = (Inr out', sent'') \<and> out = f' # out'"
  by (auto split: prod.splits sum.splits)

lemma enrich_length:
  "enrich_osv_with_nvd nd net sent items = (Inr out, sent') \<Longrightarrow> length out = length items"
proof (induction items arbitrary: sent out)
  case Nil
  then show ?case by simp
next
  case (Cons f items)
  from enrich_Cons_Inr [OF Cons.prems] obtain f' sent1 out' where
    "enrich_osv_with_nvd nd net sent1 items = (Inr out', sent')" and "out = f' # out'"
    by blast
  with Cons.IH show ?case by simp
qed

lemma enrich_nth:
  "enrich_osv_with_nvd nd net sent items = (Inr out, sent') \<Longrightarrow> i < length items \<Longrightarrow>
   fst (enrich_one nd net (snd (enrich_osv_with_nvd nd net sent (take i items))) (items ! i))
     = Inr (out ! i)"
proof (induction items arbitrary: sent out i)
  case Nil
  then show ?case by simp
next
  case (Cons f items)
  from enrich_Cons_Inr [OF Cons.prems(1)] obtain f' sent1 out' where
    one: "enrich_one nd net sent f = (Inr f', sent1)"
    and rest: "enrich_osv_with_nvd nd net sent1 items = (Inr out', sent')"
    and out: "out = f' # out'"
    by blast
  show ?case
  proof (cases i)
    case 0
    with one out show ?thesis by simp
  next
    case (Suc j)
    with Cons.prems have j: "j < length items" by simp
    have "snd (enrich_osv_with_nvd nd net sent (f # take j items))
        = snd (enrich_osv_with_nvd nd net sent1 (take j items))"
      using one by (simp split: prod.splits sum.splits)
    with Cons.IH [OF rest j] Suc out show ?thesis by simp
  qed
qed

lemma apply_metrics_entry:
  "apply_metrics f data =
     (case metric_entry data of None \<Rightarrow> f | Some m \<Rightarrow> f\<lparr>f_cvss := assign (cvssData m)\<rparr>)"
  by (simp add: apply_metrics_def metric_entry_def first_metric_def split: list.splits)

lemma enrich_one_alt:
  "fst (enrich_one nd net sent f) = Inr f' \<Longrightarrow>
   f' = (if examined f then
           (case lookup nd net sent f of
              None \<Rightarrow> f
            | Some data \<Rightarrow>
                (case metric_entry data of
                   None \<Rightarrow> f
                 | Some m \<Rightarrow> f\<lparr>f_cvss := assign (cvssData m)\<rparr>))
         else f)"
  by (auto simp add: enrich_one_def examined_def lookup_def cve_by_id_def apply_metrics_entry
        split: sum.splits list.splits option.splits response.splits if_splits)

lemma enrich_one_unmodified:
  assumes "fst (enrich_one nd net sent f) = Inr f'"
    and "f_source f \<noteq> ''OSV'' \<or> truthy (f_severity f) \<or> cve_ids nd f = Inr []
         \<or> lookup nd net sent f = None
         \<or> (\<exists>data. lookup nd net sent f = Some data \<and> metric_entry data = None)"
  shows "f' = f"
  using enrich_one_alt [OF assms(1)] assms(2)
  by (auto simp add: examined_def lookup_def split: option.splits)

lemma enrich_one_modified:
  assumes "fst (enrich_one nd net sent f) = Inr f'"
    and "examined f" and "lookup nd net sent f = Some data" and "metric_entry data = Some m"
  shows "f' = f\<lparr>f_cvss := assign (cvssData m)\<rparr>"
  using enrich_one_alt [OF assms(1)] assms(2-4) by simp

lemma enrich_one_cvss_only:
  assumes "fst (enrich_one nd net sent f) = Inr f'"
  shows "f' = f\<lparr>f_cvss := f_cvss f'\<rparr> \<and> (f' \<noteq> f \<longrightarrow> examined f)"
  using enrich_one_alt [OF assms] by (auto split: option.splits if_splits)

text \<open>
  Claim C9 as stated fails twice.  A finding of the batch advisory service whose alias
  list holds \<^verbatim>\<open>null\<close> makes \<^verbatim>\<open>_enrich_osv_with_nvd\<close> raise \<^verbatim>\<open>AttributeError\<close>, before
  any request.  And a lookup that returns no metric data of use (the first entry of
  \<^verbatim>\<open>cvssMetricV31\<close> has \<^verbatim>\<open>cvssData\<close> \<^verbatim>\<open>null\<close>) does not leave the finding as it was:
  the key \<^verbatim>\<open>cvss\<close>, missing before, is bound to \<^verbatim>\<open>None\<close>.
\<close>

theorem enrich_counterexample:
  "enrich_osv_with_nvd ascii_digit failing_network []
       [(empty_finding ''OSV'')\<lparr>f_aliases := [None]\<rparr>] = (Inl AttributeError, [])
   \<and> enrich_osv_with_nvd ascii_digit
       (constant_network (NvdCves \<lparr>nvd_vulnerabilities =
          [\<lparr>item_cve = \<lparr>cve_id = Some (JStr (codes ''CVE-2023-1255'')),
              cve_metrics = \<lparr>cvssMetricV31 = [\<lparr>cvssData = None\<rparr>], cvssMetricV30 = []\<rparr>,
              cve_descriptions = [], cve_references = []\<rparr>\<rparr>]\<rparr>))
       [] [(empty_finding ''OSV'')\<lparr>f_aliases := [Some (JStr (codes ''CVE-2023-1255''))]\<rparr>]
     = (Inr [(empty_finding ''OSV'')\<lparr>f_aliases := [Some (JStr (codes ''CVE-2023-1255''))],
               f_cvss := Null\<rparr>],
        [NvdCveById (codes ''CVE-2023-1255'')])
   \<and> (empty_finding ''OSV'')\<lparr>f_aliases := [Some (JStr (codes ''CVE-2023-1255''))],
         f_cvss := Null\<rparr>
     \<noteq> (empty_finding ''OSV'')\<lparr>f_aliases := [Some (JStr (codes ''CVE-2023-1255''))]\<rparr>
   \<and> \<not> spec_usable_metric_data \<lparr>nvd_vulnerabilities =
          [\<lparr>item_cve = \<lparr>cve_id = Some (JStr (codes ''CVE-2023-1255'')),
              cve_metrics = \<lparr>cvssMetricV31 = [\<lparr>cvssData = None\<rparr>], cvssMetricV30 = []\<rparr>,
              cve_descriptions = [], cve_references = []\<rparr>\<rparr>]\<rparr>"
  by code_simp

text \<open>
  Claim C9, as amended.  When every finding that \<^verbatim>\<open>_enrich_osv_with_nvd\<close> examines (source
  \<^verbatim>\<open>OSV\<close>, no severity) has only strings as aliases and a string or \<^verbatim>\<open>null\<close> as id, the
  pass returns, for every network, also one whose calls all raise.  Whenever it returns,
  it yields as many findings as it was given, and the finding at each position differs
  from the one given at most in its \<^verbatim>\<open>cvss\<close> key.  A finding is left as it is when it
  has a severity, or its source is not \<^verbatim>\<open>OSV\<close>, or no CVE identifier is recovered from
  its aliases and id, or its lookup (issued after the requests of the findings before
  it) raises, or returns no vulnerability, or returns a first vulnerability without a
  non-empty list under \<^verbatim>\<open>cvssMetricV31\<close> or \<^verbatim>\<open>cvssMetricV30\<close>.  Otherwise its \<^verbatim>\<open>cvss\<close>
  key is bound to the \<^verbatim>\<open>cvssData\<close> of the first entry of that list, be it \<^verbatim>\<open>null\<close>.
  So a finding that is changed comes from OSV and has no severity.
\<close>

theorem enrich_modifies_cvss_only:
  "((\<forall>f\<in>set items. examined f \<longrightarrow> strings_only f) \<longrightarrow>
      (\<exists>out sent'. enrich_osv_with_nvd nd net sent items = (Inr out, sent')))
   \<and> (\<forall>out sent'. enrich_osv_with_nvd nd net sent items = (Inr out, sent') \<longrightarrow>
        length out = length items
        \<and> (\<forall>i<length items.
             out ! i = (items ! i)\<lparr>f_cvss := f_cvss (out ! i)\<rparr>
             \<and> (out ! i \<noteq> items ! i \<longrightarrow>
                  f_source (items ! i) = ''OSV'' \<and> \<not> truthy (f_severity (items ! i)))
             \<and> (f_source (items ! i) \<noteq> ''OSV'' \<or> truthy (f_severity (items ! i))
                 \<or> cve_ids nd (items ! i) = Inr []
                 \<or> lookup nd net (snd (enrich_osv_with_nvd nd net sent (take i items)))
                      (items ! i) = None
                 \<or> (\<exists>data. lookup nd net (snd (enrich_osv_with_nvd nd net sent (take i items)))
                             (items ! i) = Some data
                           \<and> metric_entry data = None)
                 \<longrightarrow> out ! i = items ! i)
             \<and> (\<forall>data m.
                   examined (items ! i)
                   \<and> lookup nd net (snd (enrich_osv_with_nvd nd net sent (take i items)))
                        (items ! i) = Some data
                   \<and> metric_entry data = Some m
                   \<longrightarrow> out ! i = (items ! i)\<lparr>f_cvss := assign (cvssData m)\<rparr>)))"
proof (intro conjI allI impI)
  assume "\<forall>f\<in>set items. examined f \<longrightarrow> strings_only f"
  then show "\<exists>out sent'. enrich_osv_with_nvd nd net sent items = (Inr out, sent')"
    by (rule enrich_returns)
next
  fix out sent'
  assume run: "enrich_osv_with_nvd nd net sent items = (Inr out, sent')"
  then show "length out = length items"
    by (rule enrich_length)
next
  fix out sent' i
  assume run: "enrich_osv_with_nvd nd net sent items = (Inr out, sent')"
    and i: "i < length items"
  let ?s = "snd (enrich_osv_with_nvd nd net sent (take i items))"
  from run i have one: "fst (enrich_one nd net ?s (items ! i)) = Inr (out ! i)"
    by (rule enrich_nth)
  from enrich_one_cvss_only [OF one]
  show "out ! i = (items ! i)\<lparr>f_cvss := f_cvss (out ! i)\<rparr>" ..
  {
    assume "out ! i \<noteq> items ! i"
    with enrich_one_cvss_only [OF one] have "examined (items ! i)" by blast
    then show "f_source (items ! i) = ''OSV''" and "\<not> truthy (f_severity (items ! i))"
      by (simp_all add: examined_def)
  }
  {
    assume "f_source (items ! i) \<noteq> ''OSV'' \<or> truthy (f_severity (items ! i))
        \<or> cve_ids nd (items ! i) = Inr []
        \<or> lookup nd net ?s (items ! i) = None
        \<or> (\<exists>data. lookup nd net ?s (items ! i) = Some data \<and> metric_entry data = None)"
    with one show "out ! i = items ! i"
      by (rule enrich_one_unmodified)
  }
  {
    fix data m
    assume "examined (items ! i) \<and> lookup nd net ?s (items ! i) = Some data
        \<and> metric_entry data = Some m"
    then have "examined (items ! i)" and "lookup nd net ?s (items ! i) = Some data"
      and "metric_entry data = Some m"
      by simp_all
    with one show "out ! i = (items ! i)\<lparr>f_cvss := assign (cvssData m)\<rparr>"
      by (rule enrich_one_modified)
  }
qed

theorem enrich_modifies_cvss_only_witness:
  "\<exists>out sent'.
     enrich_osv_with_nvd ascii_digit
       (constant_network (NvdCves \<lparr>nvd_vulnerabilities =
          [\<lparr>item_cve = \<lparr>cve_id = Some (JStr (codes ''CVE-2023-1255'')),
              cve_metrics = \<lparr>cvssMetricV31 =
                 [\<lparr>cvssData = Some \<lparr>baseSeverity = None, baseScore = Some (PyFloat (75 / 10))\<rparr>\<rparr>],
                 cvssMetricV30 = []\<rparr>,
              cve_descriptions = [], cve_references = []\<rparr>\<rparr>]\<rparr>))
       []
       [empty_finding ''NVD'',
        (empty_finding ''OSV'')\<lparr>f_aliases := [Some (JStr (codes ''CVE-2023-1255''))]\<rparr>]
       = (Inr out, sent')
     \<and> length out = 2
     \<and> out ! 0 = empty_finding ''NVD''
     \<and> out ! 1 = (empty_finding ''OSV'')\<lparr>f_aliases := [Some (JStr (codes ''CVE-2023-1255''))],
          f_cvss := Present \<lparr>baseSeverity = None, baseScore = Some (PyFloat (75 / 10))\<rparr>\<rparr>"
proof -
  let ?m = "\<lparr>cvssData = Some \<lparr>baseSeverity = None, baseScore = Some (PyFloat (75 / 10))\<rparr>\<rparr>"
  let ?data = "\<lparr>nvd_vulnerabilities =
          [\<lparr>item_cve = \<lparr>cve_id = Some (JStr (codes ''CVE-2023-1255'')),
              cve_metrics = \<lparr>cvssMetricV31 = [?m], cvssMetricV30 = []\<rparr>,
              cve_descriptions = [], cve_references = []\<rparr>\<rparr>]\<rparr>"
  let ?net = "constant_network (NvdCves ?data)"
  let ?f1 = "(empty_finding ''OSV'')\<lparr>f_aliases := [Some (JStr (codes ''CVE-2023-1255''))]\<rparr>"
  let ?items = "[empty_finding ''NVD'', ?f1]"
  note inst = enrich_modifies_cvss_only [of ?items ascii_digit ?net "[]"]
  have typed: "\<forall>f\<in>set ?items. examined f \<longrightarrow> strings_only f"
    by (simp add: examined_def strings_only_def is_string_def empty_finding_def)
  from inst [THEN conjunct1, THEN mp, OF typed] obtain out sent'
    where run: "enrich_osv_with_nvd ascii_digit ?net [] ?items = (Inr out, sent')"
    by blast
  note props = inst [THEN conjunct2, THEN spec, THEN spec, THEN mp, OF run]
  from props have len: "length out = length ?items" ..
  have l0: "0 < length ?items" and l1: "1 < length ?items"
    by simp_all
  note at0 = props [THEN conjunct2, THEN spec, THEN mp, OF l0]
  note at1 = props [THEN conjunct2, THEN spec, THEN mp, OF l1]
  have "f_source (?items ! 0) \<noteq> ''OSV''"
    by (simp add: empty_finding_def)
  with at0 have r0: "out ! 0 = ?items ! 0"
    by blast
  have ex: "examined (?items ! 1)"
    by (simp add: examined_def empty_finding_def)
  have lk: "lookup ascii_digit ?net (snd (enrich_osv_with_nvd ascii_digit ?net [] (take 1 ?items)))
              (?items ! 1) = Some ?data"
    by code_simp
  have me: "metric_entry ?data = Some ?m"
    by (simp add: metric_entry_def)
  from ex lk me have "examined (?items ! 1)
      \<and> lookup ascii_digit ?net (snd (enrich_osv_with_nvd ascii_digit ?net [] (take 1 ?items)))
          (?items ! 1) = Some ?data
      \<and> metric_entry ?data = Some ?m"
    by (intro conjI)
  with at1 have r1: "out ! 1 = (?items ! 1)\<lparr>f_cvss := assign (cvssData ?m)\<rparr>"
    by blast
  from len r0 r1 have "length out = 2 \<and> out ! 0 = empty_finding ''NVD''
      \<and> out ! 1 = ?f1\<lparr>f_cvss := Present \<lparr>baseSeverity = None, baseScore = Some (PyFloat (75 / 10))\<rparr>\<rparr>"
    by simp
  with run show ?thesis
    by blast
qed

text \<open>
  The identifier is also recovered from an id of the form \<^verbatim>\<open>UBUNTU-CVE-2023-1255\<close>, and
  \<^verbatim>\<open>_severity_of\<close> then derives \<^verbatim>\<open>HIGH\<close> from the base score 7.5 that the lookup brought.
  An id that is a number makes \<^verbatim>\<open>re.match\<close> raise \<^verbatim>\<open>TypeError\<close>; the same id on a finding
  that is not examined does no harm.
\<close>

lemma enrich_example:
  "enrich_osv_with_nvd ascii_digit
     (constant_network (NvdCves \<lparr>nvd_vulnerabilities =
        [\<lparr>item_cve = \<lparr>cve_id = Some (JStr (codes ''CVE-2023-1255'')),
            cve_metrics = \<lparr>cvssMetricV31 =
               [\<lparr>cvssData = Some \<lparr>baseSeverity = None, baseScore = Some (PyFloat (75 / 10))\<rparr>\<rparr>],
               cvssMetricV30 = []\<rparr>,
            cve_descriptions = [], cve_references = []\<rparr>\<rparr>]\<rparr>))
     [] [(empty_finding ''OSV'')\<lparr>f_id := Some (JStr (codes ''UBUNTU-CVE-2023-1255''))\<rparr>]
   = (Inr [(empty_finding ''OSV'')\<lparr>f_id := Some (JStr (codes ''UBUNTU-CVE-2023-1255'')),
         f_cvss := Present \<lparr>baseSeverity = None, baseScore = Some (PyFloat (75 / 10))\<rparr>\<rparr>],
      [NvdCveById (codes ''CVE-2023-1255'')])
   \<and> severity_of ((empty_finding ''OSV'')\<lparr>f_id := Some (JStr (codes ''UBUNTU-CVE-2023-1255'')),
         f_cvss := Present \<lparr>baseSeverity = None, baseScore = Some (PyFloat (75 / 10))\<rparr>\<rparr>)
     = ''HIGH''
   \<and> enrich_osv_with_nvd ascii_digit failing_network []
        [(empty_finding ''OSV'')\<lparr>f_id := Some (JInt 20231255)\<rparr>] = (Inl TypeError, [])
   \<and> enrich_osv_with_nvd ascii_digit failing_network []
        [(empty_finding ''NVD'')\<lparr>f_id := Some (JInt 20231255)\<rparr>]
     = (Inr [(empty_finding ''NVD'')\<lparr>f_id := Some (JInt 20231255)\<rparr>], [])"
  by code_simp

text \<open>
  The pattern accepts decimal digits outside ASCII (here the Arabic-Indic digits, code
  points 1632 to 1641) and a newline after the number; an id with three digits for the
  year does not match, and the finding is then skipped without a request.
\<close>

lemma cve_ids_examples:
  "cve_ids (\<lambda>n. ascii_digit n \<or> (1632 \<le> n \<and> n \<le> 1641))
       ((empty_finding ''OSV'')\<lparr>f_id := Some (JStr (codes ''UBUNTU-CVE-''
          @ [1634, 1632, 1634, 1636, 45, 1633]))\<rparr>)
     = Inr [codes ''CVE-'' @ [1634, 1632, 1634, 1636, 45, 1633]]
   \<and> cve_ids ascii_digit
       ((empty_finding ''OSV'')\<lparr>f_id := Some (JStr (codes ''UBUNTU-CVE-2023-1255'' @ [10]))\<rparr>)
     = Inr [codes ''CVE-2023-1255'']
   \<and> cve_ids ascii_digit
       ((empty_finding ''OSV'')\<lparr>f_id := Some (JStr (codes ''UBUNTU-CVE-202-1255''))\<rparr>)
     = Inr []
   \<and> enrich_osv_with_nvd ascii_digit failing_network []
        [(empty_finding ''OSV'')\<lparr>f_id := Some (JStr (codes ''UBUNTU-CVE-202-1255''))\<rparr>]
     = (Inr [(empty_finding ''OSV'')\<lparr>f_id := Some (JStr (codes ''UBUNTU-CVE-202-1255''))\<rparr>], [])"
  by code_simp
section \<open>Properties of the severity classifier\<close>

lemma upper_labels:
  "upper ''LOW'' = ''LOW''" "upper ''MEDIUM'' = ''MEDIUM''" "upper ''HIGH'' = ''HIGH''"
  "upper ''CRITICAL'' = ''CRITICAL''" "upper ''UNKNOWN'' = ''UNKNOWN''"
  by (simp_all add: upper_def upper_char_def)

lemma upper_Nil_iff: "upper s = [] \<longleftrightarrow> s = []"
  by (simp add: upper_def)

lemma truthy_or_empty: "truthy a \<longleftrightarrow> or_empty a \<noteq> []"
  by (cases a) (simp_all add: or_empty_def)

text \<open>
  Claim C5.  \<^verbatim>\<open>_severity_of\<close> returns the explicit severity label of the finding when
  there is one: the finding's own \<^verbatim>\<open>severity\<close> when it is non-empty, else the
  \<^verbatim>\<open>baseSeverity\<close> of its \<^verbatim>\<open>cvss\<close> data when that is non-empty.  The label is
  returned in upper case, so one of \<^verbatim>\<open>LOW\<close>, \<^verbatim>\<open>MEDIUM\<close>, \<^verbatim>\<open>HIGH\<close>, \<^verbatim>\<open>CRITICAL\<close>,
  \<^verbatim>\<open>UNKNOWN\<close> is returned as it stands.  With no label and a numeric base score the
  result is \<^verbatim>\<open>CRITICAL\<close> from 9.0 on, \<^verbatim>\<open>HIGH\<close> from 7.0 up to 9.0, \<^verbatim>\<open>MEDIUM\<close> from 4.0
  up to 7.0 and \<^verbatim>\<open>LOW\<close> below 4.0.  With neither a label nor a numeric score it is
  \<^verbatim>\<open>UNKNOWN\<close>.
\<close>

theorem severity_of_classifies:
  "(truthy (f_severity v) \<longrightarrow> severity_of v = upper (or_empty (f_severity v)))
   \<and> (\<not> truthy (f_severity v) \<and> truthy (baseSeverity (cvss_or_empty v)) \<longrightarrow>
        severity_of v = upper (or_empty (baseSeverity (cvss_or_empty v))))
   \<and> (\<not> truthy (f_severity v) \<and> \<not> truthy (baseSeverity (cvss_or_empty v))
        \<and> baseScore (cvss_or_empty v) = Some score \<and> is_number score \<longrightarrow>
        (number_value score \<ge> 9 \<longrightarrow> severity_of v = ''CRITICAL'')
        \<and> (7 \<le> number_value score \<and> number_value score < 9 \<longrightarrow> severity_of v = ''HIGH'')
        \<and> (4 \<le> number_value score \<and> number_value score < 7 \<longrightarrow> severity_of v = ''MEDIUM'')
        \<and> (number_value score < 4 \<longrightarrow> severity_of v = ''LOW''))
   \<and> (\<not> truthy (f_severity v) \<and> \<not> truthy (baseSeverity (cvss_or_empty v))
        \<and> (baseScore (cvss_or_empty v) = None
            \<or> (\<exists>other. baseScore (cvss_or_empty v) = Some other \<and> \<not> is_number other)) \<longrightarrow>
        severity_of v = ''UNKNOWN'')
   \<and> (label \<in> set [''LOW'', ''MEDIUM'', ''HIGH'', ''CRITICAL'', ''UNKNOWN'']
        \<and> f_severity v = Some label \<longrightarrow> severity_of v = label)"
proof -
  have a: "truthy (f_severity v) \<longrightarrow> severity_of v = upper (or_empty (f_severity v))"
    by (simp add: severity_of_def Let_def truthy_or_empty upper_Nil_iff)
  have b: "\<not> truthy (f_severity v) \<and> truthy (baseSeverity (cvss_or_empty v)) \<longrightarrow>
        severity_of v = upper (or_empty (baseSeverity (cvss_or_empty v)))"
    by (simp add: severity_of_def Let_def truthy_or_empty upper_Nil_iff)
  have c: "\<not> truthy (f_severity v) \<and> \<not> truthy (baseSeverity (cvss_or_empty v))
        \<and> baseScore (cvss_or_empty v) = Some score \<and> is_number score \<longrightarrow>
        (number_value score \<ge> 9 \<longrightarrow> severity_of v = ''CRITICAL'')
        \<and> (7 \<le> number_value score \<and> number_value score < 9 \<longrightarrow> severity_of v = ''HIGH'')
        \<and> (4 \<le> number_value score \<and> number_value score < 7 \<longrightarrow> severity_of v = ''MEDIUM'')
        \<and> (number_value score < 4 \<longrightarrow> severity_of v = ''LOW'')"
    by (simp add: severity_of_def Let_def truthy_or_empty upper_Nil_iff)
  have d: "\<not> truthy (f_severity v) \<and> \<not> truthy (baseSeverity (cvss_or_empty v))
        \<and> (baseScore (cvss_or_empty v) = None
            \<or> (\<exists>other. baseScore (cvss_or_empty v) = Some other \<and> \<not> is_number other)) \<longrightarrow>
        severity_of v = ''UNKNOWN''"
    by (auto simp add: severity_of_def Let_def truthy_or_empty upper_Nil_iff)
  have e: "label \<in> set [''LOW'', ''MEDIUM'', ''HIGH'', ''CRITICAL'', ''UNKNOWN'']
        \<and> f_severity v = Some label \<longrightarrow> severity_of v = label"
    using upper_labels by (auto simp add: severity_of_def Let_def or_empty_def)
  from a b c d e show ?thesis by blast
qed


theorem severity_of_classifies_witness:
  "severity_of ((empty_finding ''OSV'')\<lparr>f_severity := Some ''high''\<rparr>) = ''HIGH''
   \<and> severity_of ((empty_finding ''NVD'')\<lparr>f_cvss := Present
         \<lparr>baseSeverity = Some ''Medium'', baseScore = Some (PyFloat (98 / 10))\<rparr>\<rparr>) = ''MEDIUM''
   \<and> severity_of ((empty_finding ''NVD'')\<lparr>f_cvss := Present
         \<lparr>baseSeverity = None, baseScore = Some (PyFloat (98 / 10))\<rparr>\<rparr>) = ''CRITICAL''
   \<and> severity_of ((empty_finding ''NVD'')\<lparr>f_cvss := Present
         \<lparr>baseSeverity = None, baseScore = Some (PyFloat (75 / 10))\<rparr>\<rparr>) = ''HIGH''
   \<and> severity_of ((empty_finding ''NVD'')\<lparr>f_cvss := Present
         \<lparr>baseSeverity = None, baseScore = Some (PyInt 4)\<rparr>\<rparr>) = ''MEDIUM''
   \<and> severity_of ((empty_finding ''NVD'')\<lparr>f_cvss := Present
         \<lparr>baseSeverity = None, baseScore = Some (PyFloat (39 / 10))\<rparr>\<rparr>) = ''LOW''
   \<and> severity_of (empty_finding ''OSV'') = ''UNKNOWN''
   \<and> severity_of ((empty_finding ''OSV'')\<lparr>f_severity := Some ''LOW''\<rparr>) = ''LOW''"
proof -
  note ev = empty_finding_def cvss_or_empty_def or_empty_def upper_def upper_char_def
  have 1: "severity_of ((empty_finding ''OSV'')\<lparr>f_severity := Some ''high''\<rparr>) = ''HIGH''"
    using severity_of_classifies [of "(empty_finding ''OSV'')\<lparr>f_severity := Some ''high''\<rparr>"]
    by (simp add: ev)
  have 2: "severity_of ((empty_finding ''NVD'')\<lparr>f_cvss := Present
         \<lparr>baseSeverity = Some ''Medium'', baseScore = Some (PyFloat (98 / 10))\<rparr>\<rparr>) = ''MEDIUM''"
    using severity_of_classifies [of "(empty_finding ''NVD'')\<lparr>f_cvss := Present
         \<lparr>baseSeverity = Some ''Medium'', baseScore = Some (PyFloat (98 / 10))\<rparr>\<rparr>"]
    by (simp add: ev)
  have 3: "severity_of ((empty_finding ''NVD'')\<lparr>f_cvss := Present
         \<lparr>baseSeverity = None, baseScore = Some (PyFloat (98 / 10))\<rparr>\<rparr>) = ''CRITICAL''"
    using severity_of_classifies [of "(empty_finding ''NVD'')\<lparr>f_cvss := Present
         \<lparr>baseSeverity = None, baseScore = Some (PyFloat (98 / 10))\<rparr>\<rparr>" "PyFloat (98 / 10)"]
    by (simp add: ev)
  have 4: "severity_of ((empty_finding ''NVD'')\<lparr>f_cvss := Present
         \<lparr>baseSeverity = None, baseScore = Some (PyFloat (75 / 10))\<rparr>\<rparr>) = ''HIGH''"
    using severity_of_classifies [of "(empty_finding ''NVD'')\<lparr>f_cvss := Present
         \<lparr>baseSeverity = None, baseScore = Some (PyFloat (75 / 10))\<rparr>\<rparr>" "PyFloat (75 / 10)"]
    by (simp add: ev)
  have 5: "severity_of ((empty_finding ''NVD'')\<lparr>f_cvss := Present
         \<lparr>baseSeverity = None, baseScore = Some (PyInt 4)\<rparr>\<rparr>) = ''MEDIUM''"
    using severity_of_classifies [of "(empty_finding ''NVD'')\<lparr>f_cvss := Present
         \<lparr>baseSeverity = None, baseScore = Some (PyInt 4)\<rparr>\<rparr>" "PyInt 4"]
    by (simp add: ev)
  have 6: "severity_of ((empty_finding ''NVD'')\<lparr>f_cvss := Present
         \<lparr>baseSeverity = None, baseScore = Some (PyFloat (39 / 10))\<rparr>\<rparr>) = ''LOW''"
    using severity_of_classifies [of "(empty_finding ''NVD'')\<lparr>f_cvss := Present
         \<lparr>baseSeverity = None, baseScore = Some (PyFloat (39 / 10))\<rparr>\<rparr>" "PyFloat (39 / 10)"]
    by (simp add: ev)
  have 7: "severity_of (empty_finding ''OSV'') = ''UNKNOWN''"
    using severity_of_classifies [of "empty_finding ''OSV''"]
    by (simp add: ev)
  have 8: "severity_of ((empty_finding ''OSV'')\<lparr>f_severity := Some ''LOW''\<rparr>) = ''LOW''"
    using severity_of_classifies [of "(empty_finding ''OSV'')\<lparr>f_severity := Some ''LOW''\<rparr>" _ "''LOW''"]
    by (simp add: ev)
  from 1 2 3 4 5 6 7 8 show ?thesis by blast
qed

section \<open>Properties of the aggregate severity\<close>

lemma upper_not_lower:
  "c \<in> set ''ABCDEFGHIJKLMNOPQRSTUVWXYZ'' \<Longrightarrow> c \<notin> set ''abcdefghijklmnopqrstuvwxyz''"
  by auto

lemma map_of_zip_None: "c \<notin> set xs \<Longrightarrow> map_of (zip xs ys) c = None"
  unfolding map_of_eq_None_iff by (auto dest: set_zip_leftD)

lemma upper_char_upper: "c \<in> set ''ABCDEFGHIJKLMNOPQRSTUVWXYZ'' \<Longrightarrow> upper_char c = c"
  unfolding upper_char_def
  using map_of_zip_None [OF upper_not_lower, of c "''ABCDEFGHIJKLMNOPQRSTUVWXYZ''"]
  by (simp only: option.case)

lemma map_of_zip_Some: "map_of (zip xs ys) c = Some u \<Longrightarrow> u \<in> set ys"
  by (auto dest: map_of_SomeD set_zip_rightD)

lemma upper_char_range:
  "upper_char c = c \<or> upper_char c \<in> set ''ABCDEFGHIJKLMNOPQRSTUVWXYZ''"
proof (cases "map_of (zip ''abcdefghijklmnopqrstuvwxyz'' ''ABCDEFGHIJKLMNOPQRSTUVWXYZ'') c")
  case None
  then have "upper_char c = c"
    unfolding upper_char_def by (simp only: option.case)
  then show ?thesis ..
next
  case (Some u)
  then have "u \<in> set ''ABCDEFGHIJKLMNOPQRSTUVWXYZ''"
    by (rule map_of_zip_Some)
  moreover from Some have "upper_char c = u"
    unfolding upper_char_def by (simp only: option.case)
  ultimately have "upper_char c \<in> set ''ABCDEFGHIJKLMNOPQRSTUVWXYZ''"
    by (simp only:)
  then show ?thesis ..
qed

lemma upper_char_idem: "upper_char (upper_char c) = upper_char c"
proof -
  consider (same) "upper_char c = c"
    | (letter) "upper_char c \<in> set ''ABCDEFGHIJKLMNOPQRSTUVWXYZ''"
    using upper_char_range by blast
  then show ?thesis
  proof cases
    case same
    then show ?thesis by (simp only:)
  next
    case letter
    then show ?thesis by (rule upper_char_upper)
  qed
qed

lemma upper_idem: "upper (upper s) = upper s"
  by (simp add: upper_def upper_char_idem)

lemma sev_order_upper: "sev_order (Some (upper s)) = spec_rank (upper s)"
  by (simp add: sev_order_def or_empty_def upper_idem spec_rank_def)

lemma spec_rank_bounds: "- 1 \<le> spec_rank l \<and> spec_rank l \<le> 3"
  by (simp add: spec_rank_def)

lemma spec_label_of_spec_rank: "0 \<le> spec_rank l \<Longrightarrow> spec_label_of_rank (spec_rank l) = l"
  by (simp add: spec_rank_def spec_label_of_rank_def split: if_splits)

lemma spec_max_rank_ge: "- 1 \<le> spec_max_rank ls"
  by (induction ls) (simp_all add: max_def)

lemma highest_loop_max:
  "- 1 \<le> best_score \<Longrightarrow>
   highest_loop best best_score vs =
     (if spec_max_rank (map label_upper vs) > best_score
      then spec_label_of_rank (spec_max_rank (map label_upper vs)) else best)"
proof (induction vs arbitrary: best best_score)
  case Nil
  then show ?case by simp
next
  case (Cons v vs)
  let ?sev = "label_upper v"
  let ?s = "spec_rank ?sev"
  let ?m = "spec_max_rank (map label_upper vs)"
  have so: "sev_order (Some ?sev) = ?s"
    unfolding label_upper_def by (rule sev_order_upper)
  show ?case
  proof (cases "?s > best_score")
    case True
    with Cons.prems have nonneg: "0 \<le> ?s" by simp
    then have lab: "spec_label_of_rank ?s = ?sev" by (rule spec_label_of_spec_rank)
    from nonneg have "- 1 \<le> ?s" by simp
    from Cons.IH [OF this, of ?sev] True lab show ?thesis
      by (auto simp add: so Let_def max_def)
  next
    case False
    from Cons.IH [OF Cons.prems, of best] False show ?thesis
      by (auto simp add: so Let_def max_def)
  qed
qed

text \<open>
  What \<^verbatim>\<open>_highest_severity\<close> returns for every list of findings: the label of the
  highest rank among the labels it reads (\<^verbatim>\<open>severity\<close>, else \<^verbatim>\<open>cvss.baseSeverity\<close>,
  else UNKNOWN), a label outside the four ranking as UNKNOWN.
\<close>

lemma highest_severity_max:
  "highest_severity vs = spec_aggregate (map label_upper vs)"
  using spec_max_rank_ge [of "map label_upper vs"]
  by (auto simp add: highest_severity_def highest_loop_max spec_aggregate_def spec_label_of_rank_def)

text \<open>
  Claim C4 is what \<^verbatim>\<open>_severity_of\<close> and its comment on deriving the label from the
  score lead to expect, and \<^verbatim>\<open>_highest_severity\<close> does not do it: it reads the labels
  only.  For one finding with the base score 9.8 and no label the classifier gives
  \<^verbatim>\<open>CRITICAL\<close> and the aggregate is \<^verbatim>\<open>UNKNOWN\<close>; for that finding together with a
  finding labelled \<^verbatim>\<open>HIGH\<close> the highest classifier label is \<^verbatim>\<open>CRITICAL\<close> and the
  aggregate is \<^verbatim>\<open>HIGH\<close>.
\<close>

theorem highest_severity_misses_score:
  "severity_of ((empty_finding ''NVD'')\<lparr>f_cvss := Present
       \<lparr>baseSeverity = None, baseScore = Some (PyFloat (98 / 10))\<rparr>\<rparr>) = ''CRITICAL''
   \<and> highest_severity [(empty_finding ''NVD'')\<lparr>f_cvss := Present
       \<lparr>baseSeverity = None, baseScore = Some (PyFloat (98 / 10))\<rparr>\<rparr>] = ''UNKNOWN''
   \<and> spec_aggregate (map severity_of [(empty_finding ''NVD'')\<lparr>f_cvss := Present
       \<lparr>baseSeverity = None, baseScore = Some (PyFloat (98 / 10))\<rparr>\<rparr>]) = ''CRITICAL''
   \<and> highest_severity [(empty_finding ''NVD'')\<lparr>f_cvss := Present
       \<lparr>baseSeverity = None, baseScore = Some (PyFloat (98 / 10))\<rparr>\<rparr>,
       (empty_finding ''OSV'')\<lparr>f_severity := Some ''HIGH''\<rparr>] = ''HIGH''
   \<and> spec_aggregate (map severity_of [(empty_finding ''NVD'')\<lparr>f_cvss := Present
       \<lparr>baseSeverity = None, baseScore = Some (PyFloat (98 / 10))\<rparr>\<rparr>,
       (empty_finding ''OSV'')\<lparr>f_severity := Some ''HIGH''\<rparr>]) = ''CRITICAL''"
  by (simp add: highest_severity_def label_upper_def sev_order_def severity_of_def
        empty_finding_def cvss_or_empty_def or_empty_def py_or_def upper_def upper_char_def
        spec_aggregate_def spec_rank_def spec_label_of_rank_def Let_def)
section \<open>Properties of the report\<close>

lemma count_loop_filter:
  "count_loop vs (crit, high, med, low) =
     (crit + length (filter (\<lambda>v. severity_of v = ''CRITICAL'') vs),
      high + length (filter (\<lambda>v. severity_of v = ''HIGH'') vs),
      med + length (filter (\<lambda>v. severity_of v = ''MEDIUM'') vs),
      low + length (filter (\<lambda>v. severity_of v = ''LOW'') vs))"
  by (induction vs arbitrary: crit high med low) (simp_all add: Let_def)

lemma four_buckets:
  "length (filter (\<lambda>v. severity_of v = ''CRITICAL'') vs)
   + length (filter (\<lambda>v. severity_of v = ''HIGH'') vs)
   + length (filter (\<lambda>v. severity_of v = ''MEDIUM'') vs)
   + length (filter (\<lambda>v. severity_of v = ''LOW'') vs)
   + length (filter (\<lambda>v. severity_of v \<notin> set [''CRITICAL'', ''HIGH'', ''MEDIUM'', ''LOW'']) vs)
   = length vs"
  by (induction vs) auto

lemma filter_empty_length: "length (filter P xs) = 0 \<longleftrightarrow> (\<forall>x\<in>set xs. \<not> P x)"
  by (simp add: filter_empty_conv)

lemma run_vulnerabilities:
  "run_security_check nd net sent self = (Inr rep, sent') \<Longrightarrow>
   \<exists>findings. rep_vulnerabilities rep = dedupe_findings findings"
  by (auto simp add: run_security_check_def check_vulnerabilities_def generate_report_def
       split: prod.splits sum.splits)

text \<open>
  Claim C10.  In the report of \<^verbatim>\<open>_generate_report\<close> each of the four counts is the
  number of findings of \<^verbatim>\<open>self.vulnerabilities\<close> (the deduplicated findings, which
  the report lists) that \<^verbatim>\<open>_severity_of\<close> classifies as \<^verbatim>\<open>CRITICAL\<close>, \<^verbatim>\<open>HIGH\<close>,
  \<^verbatim>\<open>MEDIUM\<close> and \<^verbatim>\<open>LOW\<close>; \<^verbatim>\<open>vulnerabilities_found\<close> counts all of them.  A finding
  with any other label is in no bucket, so the four counts add up to at most
  \<^verbatim>\<open>vulnerabilities_found\<close>, and to exactly that number if and only if every finding
  has one of the four labels.  The list of findings in a report that
  \<^verbatim>\<open>run_security_check\<close> returns is an output of \<^verbatim>\<open>_dedupe_findings\<close>.
\<close>

theorem report_counts:
  "critical_count (rep_summary (generate_report self))
     = length (filter (\<lambda>v. severity_of v = ''CRITICAL'') (vulnerabilities self))
   \<and> high_count (rep_summary (generate_report self))
     = length (filter (\<lambda>v. severity_of v = ''HIGH'') (vulnerabilities self))
   \<and> medium_count (rep_summary (generate_report self))
     = length (filter (\<lambda>v. severity_of v = ''MEDIUM'') (vulnerabilities self))
   \<and> low_count (rep_summary (generate_report self))
     = length (filter (\<lambda>v. severity_of v = ''LOW'') (vulnerabilities self))
   \<and> vulnerabilities_found (rep_summary (generate_report self)) = length (vulnerabilities self)
   \<and> rep_vulnerabilities (generate_report self) = vulnerabilities self
   \<and> critical_count (rep_summary (generate_report self))
       + high_count (rep_summary (generate_report self))
       + medium_count (rep_summary (generate_report self))
       + low_count (rep_summary (generate_report self))
     \<le> vulnerabilities_found (rep_summary (generate_report self))
   \<and> (critical_count (rep_summary (generate_report self))
       + high_count (rep_summary (generate_report self))
       + medium_count (rep_summary (generate_report self))
       + low_count (rep_summary (generate_report self))
     = vulnerabilities_found (rep_summary (generate_report self))
     \<longleftrightarrow> (\<forall>v\<in>set (vulnerabilities self).
            severity_of v \<in> set [''CRITICAL'', ''HIGH'', ''MEDIUM'', ''LOW'']))
   \<and> (\<forall>rep sent'. run_security_check nd net sent self = (Inr rep, sent') \<longrightarrow>
        (\<exists>findings. rep_vulnerabilities rep = dedupe_findings findings))"
proof -
  let ?vs = "vulnerabilities self"
  let ?r = "rep_summary (generate_report self)"
  let ?other = "length (filter (\<lambda>v. severity_of v \<notin> set [''CRITICAL'', ''HIGH'', ''MEDIUM'', ''LOW'']) ?vs)"
  have c: "critical_count ?r = length (filter (\<lambda>v. severity_of v = ''CRITICAL'') ?vs)"
    and h: "high_count ?r = length (filter (\<lambda>v. severity_of v = ''HIGH'') ?vs)"
    and m: "medium_count ?r = length (filter (\<lambda>v. severity_of v = ''MEDIUM'') ?vs)"
    and l: "low_count ?r = length (filter (\<lambda>v. severity_of v = ''LOW'') ?vs)"
    and n: "vulnerabilities_found ?r = length ?vs"
    and vs: "rep_vulnerabilities (generate_report self) = ?vs"
    by (simp_all add: generate_report_def count_loop_filter)
  have total: "critical_count ?r + high_count ?r + medium_count ?r + low_count ?r + ?other
      = vulnerabilities_found ?r"
    unfolding c h m l n by (rule four_buckets)
  then have le: "critical_count ?r + high_count ?r + medium_count ?r + low_count ?r
      \<le> vulnerabilities_found ?r"
    by linarith
  from total have "critical_count ?r + high_count ?r + medium_count ?r + low_count ?r
      = vulnerabilities_found ?r \<longleftrightarrow> ?other = 0"
    by linarith
  also have "\<dots> \<longleftrightarrow> (\<forall>v\<in>set ?vs. severity_of v \<in> set [''CRITICAL'', ''HIGH'', ''MEDIUM'', ''LOW''])"
    unfolding filter_empty_length by simp
  finally have eq: "critical_count ?r + high_count ?r + medium_count ?r + low_count ?r
      = vulnerabilities_found ?r
      \<longleftrightarrow> (\<forall>v\<in>set ?vs. severity_of v \<in> set [''CRITICAL'', ''HIGH'', ''MEDIUM'', ''LOW''])" .
  have run: "\<forall>rep sent'. run_security_check nd net sent self = (Inr rep, sent') \<longrightarrow>
      (\<exists>findings. rep_vulnerabilities rep = dedupe_findings findings)"
    using run_vulnerabilities by blast
  from c h m l n vs le eq run show ?thesis
    by blast
qed

theorem report_counts_witness:
  "critical_count (rep_summary (generate_report
      \<lparr>offline = False, ecosystem = None, dependencies = empty_inventory,
       vulnerabilities = [(empty_finding ''OSV'')\<lparr>f_severity := Some ''critical''\<rparr>,
                          (empty_finding ''OSV'')\<lparr>f_severity := Some ''Moderate''\<rparr>,
                          empty_finding ''NVD'']\<rparr>)) = 1
   \<and> vulnerabilities_found (rep_summary (generate_report
      \<lparr>offline = False, ecosystem = None, dependencies = empty_inventory,
       vulnerabilities = [(empty_finding ''OSV'')\<lparr>f_severity := Some ''critical''\<rparr>,
                          (empty_finding ''OSV'')\<lparr>f_severity := Some ''Moderate''\<rparr>,
                          empty_finding ''NVD'']\<rparr>)) = 3
   \<and> \<not> (\<forall>v\<in>set [(empty_finding ''OSV'')\<lparr>f_severity := Some ''critical''\<rparr>,
                   (empty_finding ''OSV'')\<lparr>f_severity := Some ''Moderate''\<rparr>,
                   empty_finding ''NVD''].
          severity_of v \<in> set [''CRITICAL'', ''HIGH'', ''MEDIUM'', ''LOW''])"
proof -
  let ?self = "\<lparr>offline = False, ecosystem = None, dependencies = empty_inventory,
       vulnerabilities = [(empty_finding ''OSV'')\<lparr>f_severity := Some ''critical''\<rparr>,
                          (empty_finding ''OSV'')\<lparr>f_severity := Some ''Moderate''\<rparr>,
                          empty_finding ''NVD'']\<rparr>"
  have s1: "severity_of ((empty_finding ''OSV'')\<lparr>f_severity := Some ''critical''\<rparr>) = ''CRITICAL''"
    and s2: "severity_of ((empty_finding ''OSV'')\<lparr>f_severity := Some ''Moderate''\<rparr>) = ''MODERATE''"
    and s3: "severity_of (empty_finding ''NVD'') = ''UNKNOWN''"
    by (simp_all add: severity_of_def empty_finding_def cvss_or_empty_def or_empty_def
          upper_def upper_char_def)
  show ?thesis
    using report_counts [of ?self] by (simp add: s1 s2 s3)
qed

section \<open>The offline run\<close>

lemma offline_check_vulnerabilities:
  "offline self \<Longrightarrow>
   check_vulnerabilities nd net sent self = (Inr (self\<lparr>vulnerabilities := []\<rparr>), sent)"
  by (simp add: check_vulnerabilities_def query_osv_for_system_def
        query_osv_for_submodules_def query_nvd_for_conan_def extend_with_def
        dedupe_findings_def)

text \<open>
  Claim C7.  With offline mode enabled, for every inventory and every network, each of
  the three query operations returns the empty list and issues no request; the
  enrichment of no finding issues none either and does not raise; and
  \<^verbatim>\<open>run_security_check\<close> returns, with the list of issued requests as it found it, a
  report that lists no finding, counts zero findings in total and in each severity
  bucket, and carries the inventory.
\<close>

theorem offline_run:
  "offline self \<longrightarrow>
     query_osv_for_system net sent self = (Inr [], sent)
     \<and> query_osv_for_submodules net sent self = (Inr [], sent)
     \<and> query_nvd_for_conan net sent self = (Inr [], sent)
     \<and> enrich_osv_with_nvd nd net sent [] = (Inr [], sent)
     \<and> dedupe_findings [] = []
     \<and> check_vulnerabilities nd net sent self = (Inr (self\<lparr>vulnerabilities := []\<rparr>), sent)
     \<and> (\<exists>rep. run_security_check nd net sent self = (Inr rep, sent)
           \<and> rep_vulnerabilities rep = []
           \<and> rep_dependencies rep = dependencies self
           \<and> vulnerabilities_found (rep_summary rep) = 0
           \<and> critical_count (rep_summary rep) = 0
           \<and> high_count (rep_summary rep) = 0
           \<and> medium_count (rep_summary rep) = 0
           \<and> low_count (rep_summary rep) = 0)"
proof
  assume off: "offline self"
  let ?rep = "generate_report (self\<lparr>vulnerabilities := []\<rparr>)"
  have q1: "query_osv_for_system net sent self = (Inr [], sent)"
    using off by (simp add: query_osv_for_system_def)
  have q2: "query_osv_for_submodules net sent self = (Inr [], sent)"
    using off by (simp add: query_osv_for_submodules_def)
  have q3: "query_nvd_for_conan net sent self = (Inr [], sent)"
    using off by (simp add: query_nvd_for_conan_def)
  have e: "enrich_osv_with_nvd nd net sent [] = (Inr [], sent)"
    by simp
  have d: "dedupe_findings [] = []"
    by (simp add: dedupe_findings_def)
  have c: "check_vulnerabilities nd net sent self = (Inr (self\<lparr>vulnerabilities := []\<rparr>), sent)"
    using off by (rule offline_check_vulnerabilities)
  have r: "run_security_check nd net sent self = (Inr ?rep, sent)"
    by (simp add: run_security_check_def c)
  have r2: "rep_vulnerabilities ?rep = []"
    and r3: "rep_dependencies ?rep = dependencies self"
    and r4: "vulnerabilities_found (rep_summary ?rep) = 0"
    and r5: "critical_count (rep_summary ?rep) = 0"
    and r6: "high_count (rep_summary ?rep) = 0"
    and r7: "medium_count (rep_summary ?rep) = 0"
    and r8: "low_count (rep_summary ?rep) = 0"
    by (simp_all add: generate_report_def)
  from r r2 r3 r4 r5 r6 r7 r8
  have run: "\<exists>rep. run_security_check nd net sent self = (Inr rep, sent)
           \<and> rep_vulnerabilities rep = []
           \<and> rep_dependencies rep = dependencies self
           \<and> vulnerabilities_found (rep_summary rep) = 0
           \<and> critical_count (rep_summary rep) = 0
           \<and> high_count (rep_summary rep) = 0
           \<and> medium_count (rep_summary rep) = 0
           \<and> low_count (rep_summary rep) = 0"
    by (intro exI [of _ ?rep] conjI)
  from q1 q2 q3 e d c run
  show "query_osv_for_system net sent self = (Inr [], sent)
     \<and> query_osv_for_submodules net sent self = (Inr [], sent)
     \<and> query_nvd_for_conan net sent self = (Inr [], sent)
     \<and> enrich_osv_with_nvd nd net sent [] = (Inr [], sent)
     \<and> dedupe_findings [] = []
     \<and> check_vulnerabilities nd net sent self = (Inr (self\<lparr>vulnerabilities := []\<rparr>), sent)
     \<and> (\<exists>rep. run_security_check nd net sent self = (Inr rep, sent)
           \<and> rep_vulnerabilities rep = []
           \<and> rep_dependencies rep = dependencies self
           \<and> vulnerabilities_found (rep_summary rep) = 0
           \<and> critical_count (rep_summary rep) = 0
           \<and> high_count (rep_summary rep) = 0
           \<and> medium_count (rep_summary rep) = 0
           \<and> low_count (rep_summary rep) = 0)"
    by (intro conjI)
qed

theorem offline_run_witness:
  "\<exists>rep. run_security_check ascii_digit failing_network [] (example_checker True) = (Inr rep, [])
     \<and> rep_vulnerabilities rep = []
     \<and> vulnerabilities_found (rep_summary rep) = 0"
proof -
  have off: "offline (example_checker True)"
    by (simp add: example_checker_def)
  note concl = offline_run [of "example_checker True" failing_network "[]" ascii_digit,
      THEN mp, OF off]
  from concl show ?thesis by blast
qed

text \<open>
  The same checker with offline mode disabled issues two batch requests, one for the
  platform package and one for the commit.
\<close>

lemma online_run_issues_requests:
  "snd (run_security_check ascii_digit failing_network [] (example_checker False))
     = [OsvQueryBatch [PackageQuery ''zlib1g'' ''Debian'' ''1:1.2.13-1''],
        OsvQueryBatch [CommitQuery ''0a1b2c3d'']]"
  by code_simp

end
